theory Spec2Isabelle
  imports Complex_Main "HOL-Library.Sublist" "HOL-Library.Multiset"
begin

section \<open>Python values and exceptions\<close>

text \<open>
  The exceptions the modelled code can raise. A function that can raise returns
  \<open>pyerr + 'a\<close>, with \<open>Inl\<close> for the exception.
\<close>

datatype pyerr = TypeError | KeyError | AttributeError | IndexError | JSONDecodeError

text \<open>
  What \<^verbatim>\<open>json.load\<close> returns: \<^verbatim>\<open>None\<close>, a bool, a number, a string, a list or a
  dict. A dict is an association list read with \<open>map_of\<close>; numbers are exact reals
  (the rounding of Python floats is not modelled).
\<close>

datatype json =
    JNull
  | JBool bool
  | JNum real
  | JStr string
  | JArr "json list"
  | JObj "(string \<times> json) list"

text \<open>Python truthiness, as \<^verbatim>\<open>if x\<close> and \<^verbatim>\<open>and\<close> test it.\<close>

fun py_truthy :: "json \<Rightarrow> bool" where
  "py_truthy JNull = False"
| "py_truthy (JBool b) = b"
| "py_truthy (JNum r) = (r \<noteq> 0)"
| "py_truthy (JStr s) = (s \<noteq> [])"
| "py_truthy (JArr xs) = (xs \<noteq> [])"
| "py_truthy (JObj kvs) = (kvs \<noteq> [])"

text \<open>
  \<^verbatim>\<open>k in x\<close> for a string \<open>k\<close>: key membership in a dict, element membership in a
  list, substring test in a string, TypeError on anything else.
\<close>

fun py_contains :: "string \<Rightarrow> json \<Rightarrow> pyerr + bool" where
  "py_contains k (JObj kvs) = Inr (map_of kvs k \<noteq> None)"
| "py_contains k (JArr xs) = Inr (JStr k \<in> set xs)"
| "py_contains k (JStr s) = Inr (sublist k s)"
| "py_contains k JNull = Inl TypeError"
| "py_contains k (JBool b) = Inl TypeError"
| "py_contains k (JNum r) = Inl TypeError"

text \<open>\<^verbatim>\<open>x[k]\<close> for a string \<open>k\<close>: KeyError on a dict without the key, TypeError on
  anything that is not a dict.\<close>

fun py_getitem :: "json \<Rightarrow> string \<Rightarrow> pyerr + json" where
  "py_getitem (JObj kvs) k = (case map_of kvs k of None \<Rightarrow> Inl KeyError | Some v \<Rightarrow> Inr v)"
| "py_getitem x k = Inl TypeError"

text \<open>\<^verbatim>\<open>x.get(k)\<close>: only a dict has the method.\<close>

fun py_get :: "json \<Rightarrow> string \<Rightarrow> pyerr + json" where
  "py_get (JObj kvs) k = (case map_of kvs k of None \<Rightarrow> Inr JNull | Some v \<Rightarrow> Inr v)"
| "py_get x k = Inl AttributeError"

fun is_dict :: "json \<Rightarrow> bool" where
  "is_dict (JObj kvs) = True"
| "is_dict x = False"

section \<open>Schema utilities of remove_furigana.py\<close>

text \<open>The condition \<^verbatim>\<open>k in data and data[k]\<close> of the first and third branch.\<close>

definition key_present_and_truthy :: "string \<Rightarrow> json \<Rightarrow> pyerr + bool" where
  "key_present_and_truthy k data =
     (case py_contains k data of
        Inl e \<Rightarrow> Inl e
      | Inr False \<Rightarrow> Inr False
      | Inr True \<Rightarrow> (case py_getitem data k of Inl e \<Rightarrow> Inl e | Inr v \<Rightarrow> Inr (py_truthy v)))"

text \<open>The condition of the second branch:
  \<^verbatim>\<open>"analyzeResult" in data and isinstance(data.get("analyzeResult"), dict)
    and "pages" in data["analyzeResult"]\<close>.\<close>

definition analyze_result_has_pages :: "json \<Rightarrow> pyerr + bool" where
  "analyze_result_has_pages data =
     (case py_contains ''analyzeResult'' data of
        Inl e \<Rightarrow> Inl e
      | Inr False \<Rightarrow> Inr False
      | Inr True \<Rightarrow>
          (case py_get data ''analyzeResult'' of
             Inl e \<Rightarrow> Inl e
           | Inr a \<Rightarrow>
               if \<not> is_dict a then Inr False
               else (case py_getitem data ''analyzeResult'' of
                       Inl e \<Rightarrow> Inl e
                     | Inr a' \<Rightarrow> py_contains ''pages'' a')))"

text \<open>\<^verbatim>\<open>get_pages_from_json\<close>, lines 23 to 27: three \<^verbatim>\<open>if ...: return ...\<close> in a row and
  a final \<^verbatim>\<open>return []\<close>.\<close>

definition get_pages_from_json :: "json \<Rightarrow> pyerr + json" where
  "get_pages_from_json data =
     (case key_present_and_truthy ''pages'' data of
        Inl e \<Rightarrow> Inl e
      | Inr True \<Rightarrow> py_getitem data ''pages''
      | Inr False \<Rightarrow>
     (case analyze_result_has_pages data of
        Inl e \<Rightarrow> Inl e
      | Inr True \<Rightarrow>
          (case py_getitem data ''analyzeResult'' of
             Inl e \<Rightarrow> Inl e
           | Inr a \<Rightarrow> py_getitem a ''pages'')
      | Inr False \<Rightarrow>
     (case key_present_and_truthy ''readResults'' data of
        Inl e \<Rightarrow> Inl e
      | Inr True \<Rightarrow> py_getitem data ''readResults''
      | Inr False \<Rightarrow> Inr (JArr []))))"

section \<open>The OCR schema\<close>

text \<open>
  The parts of a page that the processing reads. A key read with \<^verbatim>\<open>.get\<close> is an
  optional field (\<open>None\<close> when the key is absent); a key read by subscript
  (\<^verbatim>\<open>page_data['pageNumber']\<close>, \<^verbatim>\<open>line_span["offset"]\<close>, \<^verbatim>\<open>line_span["length"]\<close>) is a
  mandatory field. Coordinates are exact reals, offsets are Python ints.
\<close>

record ocr_item =
  it_polygon :: "real list option"
  it_boundingBox :: "real list option"
  it_content :: "string option"
  it_text :: "string option"

record span =
  sp_offset :: int
  sp_length :: int

record word_span =
  ws_offset :: "int option"

record ocr_line = ocr_item +
  ln_spans :: "span list option"

record ocr_word = ocr_item +
  wd_span :: "word_span option"

record page =
  pg_pageNumber :: int
  pg_unit :: "string option"
  pg_lines :: "ocr_line list option"
  pg_words :: "ocr_word list option"

text \<open>\<^verbatim>\<open>d.get(k, [])\<close> on an optional list field.\<close>

definition get_or_empty :: "'a list option \<Rightarrow> 'a list" where
  "get_or_empty v = (case v of None \<Rightarrow> [] | Some xs \<Rightarrow> xs)"

text \<open>\<^verbatim>\<open>a or b\<close> and \<^verbatim>\<open>not a\<close> on values that are \<^verbatim>\<open>None\<close>, a list or a string: only a
  non-empty sequence is truthy.\<close>

definition py_or :: "'a list option \<Rightarrow> 'a list option \<Rightarrow> 'a list option" where
  "py_or a b = (case a of Some (x # xs) \<Rightarrow> a | _ \<Rightarrow> b)"

definition py_not :: "'a list option \<Rightarrow> bool" where
  "py_not a = (case a of Some (x # xs) \<Rightarrow> False | _ \<Rightarrow> True)"

definition get_item_poly :: "'a ocr_item_scheme \<Rightarrow> real list option" where
  "get_item_poly item = py_or (it_polygon item) (it_boundingBox item)"

definition get_item_text :: "'a ocr_item_scheme \<Rightarrow> string option" where
  "get_item_text item = py_or (it_content item) (it_text item)"

section \<open>Geometry\<close>

text \<open>Python's \<^verbatim>\<open>max\<close> and \<^verbatim>\<open>min\<close> of a list. They raise on an empty list; the only
  call site passes the y coordinates of a polygon of at least 8 numbers.\<close>

fun py_max :: "real list \<Rightarrow> real" where
  "py_max (x # xs) = fold max xs x"

fun py_min :: "real list \<Rightarrow> real" where
  "py_min (x # xs) = fold min xs x"

text \<open>\<^verbatim>\<open>[polygon[i] for i in range(1, len(polygon), 2)]\<close>\<close>

definition y_coords :: "real list \<Rightarrow> real list" where
  "y_coords polygon = map (\<lambda>i. polygon ! i) (filter odd [1..<length polygon])"

definition get_polygon_height :: "real list option \<Rightarrow> real" where
  "get_polygon_height polygon =
     (if py_not polygon \<or> length (get_or_empty polygon) < 8 then 0
      else py_max (y_coords (get_or_empty polygon)) - py_min (y_coords (get_or_empty polygon)))"

section \<open>The full workflow, stage 2: text layer and RAG chunks\<close>

text \<open>One call of \<^verbatim>\<open>insert_text\<close>: the index of the PDF page, the point and the text.\<close>

record insertion =
  ins_page :: nat
  ins_x :: real
  ins_y :: real
  ins_text :: string

record rag_chunk =
  ch_page_number :: int
  ch_type :: string
  ch_content :: string

text \<open>What stage 2 leaves behind: the text inserted into the saved PDF and the RAG
  JSON, written only when there is a chunk.\<close>

record workflow_result =
  wr_text_layer :: "insertion list"
  wr_rag_json :: "rag_chunk list option"

definition main_text_lines :: "real \<Rightarrow> page \<Rightarrow> ocr_line list" where
  "main_text_lines height_cutoff page_data =
     filter (\<lambda>line. get_polygon_height (get_item_poly line) \<ge> height_cutoff)
       (get_or_empty (pg_lines page_data))"

fun py_join :: "string \<Rightarrow> string list \<Rightarrow> string" where
  "py_join sep [] = []"
| "py_join sep [x] = x"
| "py_join sep (x # y # ys) = x @ sep @ py_join sep (y # ys)"

text \<open>\<^verbatim>\<open>[get_item_text(line) for line in main_text_lines if get_item_text(line)]\<close>\<close>

definition retained_texts :: "ocr_line list \<Rightarrow> string list" where
  "retained_texts ls =
     map (\<lambda>line. get_or_empty (get_item_text line))
       (filter (\<lambda>line. \<not> py_not (get_item_text line)) ls)"

definition page_text_for_rag :: "real \<Rightarrow> page \<Rightarrow> string" where
  "page_text_for_rag height_cutoff page_data =
     py_join [CHR 0x0A] (retained_texts (main_text_lines height_cutoff page_data))"

definition page_chunks :: "real \<Rightarrow> page \<Rightarrow> rag_chunk list" where
  "page_chunks height_cutoff page_data =
     (if page_text_for_rag height_cutoff page_data \<noteq> []
      then [\<lparr>ch_page_number = pg_pageNumber page_data, ch_type = ''page_content'',
             ch_content = page_text_for_rag height_cutoff page_data\<rparr>]
      else [])"

text \<open>\<^verbatim>\<open>word.get("span", {}).get("offset", -1)\<close>\<close>

definition word_start :: "ocr_word \<Rightarrow> int" where
  "word_start word =
     (case wd_span word of
        None \<Rightarrow> - 1
      | Some word_span \<Rightarrow> (case ws_offset word_span of None \<Rightarrow> - 1 | Some off \<Rightarrow> off))"

text \<open>The loops of lines 81 to 85 for one line: the (span, word) pairs that pass the
  test of line 85, in the order the loops reach them.\<close>

definition line_word_matches :: "ocr_line \<Rightarrow> ocr_word list \<Rightarrow> (span \<times> ocr_word) list" where
  "line_word_matches line page_words =
     [(line_span, word).
        line_span \<leftarrow> get_or_empty (ln_spans line),
        word \<leftarrow> page_words,
        word_start word \<ge> sp_offset line_span \<and>
        word_start word < sp_offset line_span + sp_length line_span]"

text \<open>Lines 80 to 85 for a page: every word reached by the body, once per main-text
  line and span that matches it.\<close>

definition page_matches :: "real \<Rightarrow> page \<Rightarrow> (ocr_line \<times> span \<times> ocr_word) list" where
  "page_matches height_cutoff page_data =
     [(line, line_span, word).
        line \<leftarrow> main_text_lines height_cutoff page_data,
        (line_span, word) \<leftarrow> line_word_matches line (get_or_empty (pg_words page_data))]"

text \<open>Lines 86 to 89 for one matched word: \<^verbatim>\<open>continue\<close> without polygon or text,
  IndexError when the scaled polygon has no index 6 or 7, one insertion otherwise.\<close>

definition insert_word :: "real \<Rightarrow> nat \<Rightarrow> ocr_word \<Rightarrow> pyerr + insertion list" where
  "insert_word scale_factor i word =
     (if py_not (get_item_poly word) \<or> py_not (get_item_text word) then Inr []
      else
        (let scaled_points = map (\<lambda>p. p * scale_factor) (get_or_empty (get_item_poly word))
         in if length scaled_points \<le> 6 \<or> length scaled_points \<le> 7 then Inl IndexError
            else Inr [\<lparr>ins_page = i, ins_x = scaled_points ! 6, ins_y = scaled_points ! 7,
                       ins_text = get_or_empty (get_item_text word)\<rparr>]))"

fun insert_words :: "real \<Rightarrow> nat \<Rightarrow> ocr_word list \<Rightarrow> pyerr + insertion list" where
  "insert_words scale_factor i [] = Inr []"
| "insert_words scale_factor i (word # rest) =
     (case insert_word scale_factor i word of
        Inl e \<Rightarrow> Inl e
      | Inr a \<Rightarrow>
          (case insert_words scale_factor i rest of
             Inl e \<Rightarrow> Inl e
           | Inr b \<Rightarrow> Inr (a @ b)))"

definition page_insertions :: "real \<Rightarrow> real \<Rightarrow> nat \<Rightarrow> page \<Rightarrow> pyerr + insertion list" where
  "page_insertions scale_factor height_cutoff i page_data =
     insert_words scale_factor i (map (\<lambda>(line, line_span, word). word)
       (page_matches height_cutoff page_data))"

text \<open>The loop of line 68 over \<^verbatim>\<open>enumerate(pages_data)\<close>, from index \<open>i\<close>; \<open>n\<close> is
  \<^verbatim>\<open>len(clean_base_doc)\<close>, the number of pages of the rebuilt PDF. An exception leaves
  the function before anything is saved.\<close>

fun page_loop ::
  "real \<Rightarrow> real \<Rightarrow> nat \<Rightarrow> nat \<Rightarrow> page list \<Rightarrow> pyerr + (insertion list \<times> rag_chunk list)" where
  "page_loop scale_factor height_cutoff n i [] = Inr ([], [])"
| "page_loop scale_factor height_cutoff n i (page_data # rest) =
     (if i \<ge> n then Inr ([], [])
      else
        (case page_insertions scale_factor height_cutoff i page_data of
           Inl e \<Rightarrow> Inl e
         | Inr ins \<Rightarrow>
             (case page_loop scale_factor height_cutoff n (i + 1) rest of
                Inl e \<Rightarrow> Inl e
              | Inr (ins', chunks) \<Rightarrow>
                  Inr (ins @ ins', page_chunks height_cutoff page_data @ chunks))))"

text \<open>Line 64: the scale factor is computed once, from the first page.\<close>

definition scale_factor_of :: "page \<Rightarrow> real" where
  "scale_factor_of first_page = (if pg_unit first_page = Some ''inch'' then 72 else 1)"

text \<open>Lines 59 to 96, given the pages that \<^verbatim>\<open>get_pages_from_json\<close> returned.\<close>

definition process_full_workflow :: "page list \<Rightarrow> nat \<Rightarrow> real \<Rightarrow> pyerr + workflow_result" where
  "process_full_workflow pages_data n height_cutoff =
     (case pages_data of
        [] \<Rightarrow> Inr \<lparr>wr_text_layer = [], wr_rag_json = None\<rparr>
      | first_page # _ \<Rightarrow>
          (case page_loop (scale_factor_of first_page) height_cutoff n 0 pages_data of
             Inl e \<Rightarrow> Inl e
           | Inr (ins, chunks) \<Rightarrow>
               Inr \<lparr>wr_text_layer = ins,
                    wr_rag_json = (if chunks \<noteq> [] then Some chunks else None)\<rparr>))"

section \<open>Global analysis: the height cutoff of a batch\<close>

text \<open>
  \<^verbatim>\<open>numpy.percentile(a, q)\<close> with the default linear interpolation, in exact
  arithmetic: on the sorted array of \<open>n\<close> values the virtual index is
  \<open>(n - 1) * q / 100\<close>; the result interpolates between the values on each side of it.
  The empty array is outside the model (\<open>None\<close>); line 174 guards the only call.
\<close>

definition np_percentile :: "real list \<Rightarrow> nat \<Rightarrow> real option" where
  "np_percentile a q =
     (if a = [] then None
      else
        (let s = sort a;
             n = length s;
             k = (n - 1) * q;
             lo = k div 100;
             hi = min (lo + 1) (n - 1);
             g = real (k mod 100) / 100
         in Some (s ! lo + (s ! hi - s ! lo) * g)))"

text \<open>
  What lines 161 and 162 give for one file pair: an exception (the file cannot be
  opened or decoded), or the pages that \<^verbatim>\<open>get_pages_from_json\<close> returned.
\<close>

datatype load_result = LoadFailed | Loaded "page list"

text \<open>The messages of the analysis on the error stream; a parse warning names the
  JSON file.\<close>

datatype message = ParseWarning string | NoLinesError | NoHeightsWarning

datatype analysis_outcome = Exit nat | Cutoff real | NumpyFailure

text \<open>The loop of lines 159 to 166, with \<^verbatim>\<open>all_lines\<close> and the messages so far.\<close>

fun pool_lines ::
  "(string \<times> load_result) list \<Rightarrow> ocr_line list \<Rightarrow> message list
     \<Rightarrow> ocr_line list \<times> message list" where
  "pool_lines [] all_lines msgs = (all_lines, msgs)"
| "pool_lines ((name, LoadFailed) # rest) all_lines msgs =
     pool_lines rest all_lines (msgs @ [ParseWarning name])"
| "pool_lines ((name, Loaded pages) # rest) all_lines msgs =
     pool_lines rest
       (if pages \<noteq> []
        then all_lines @ concat (map (\<lambda>page. get_or_empty (pg_lines page)) pages)
        else all_lines)
       msgs"

text \<open>Lines 170 and 171.\<close>

definition positive_heights :: "ocr_line list \<Rightarrow> real list" where
  "positive_heights all_lines =
     filter (\<lambda>h. h > 0) (map (\<lambda>l. get_polygon_height (get_item_poly l)) all_lines)"

text \<open>Lines 158 to 179: the outcome and the messages written.\<close>

definition global_analysis :: "(string \<times> load_result) list \<Rightarrow> analysis_outcome \<times> message list" where
  "global_analysis file_pairs =
     (case pool_lines file_pairs [] [] of
        (all_lines, msgs) \<Rightarrow>
          if all_lines = [] then (Exit 1, msgs @ [NoLinesError])
          else
            (let all_heights = positive_heights all_lines
             in if length all_heights > 0
                then (case np_percentile all_heights 90 of
                        None \<Rightarrow> (NumpyFailure, msgs)
                      | Some main_text_height_benchmark \<Rightarrow>
                          (Cutoff (main_text_height_benchmark * (70 / 100)), msgs))
                else (Cutoff 0, msgs @ [NoHeightsWarning])))"

text \<open>What one file pair adds to \<^verbatim>\<open>all_lines\<close> and to the error stream.\<close>

definition pair_lines :: "string \<times> load_result \<Rightarrow> ocr_line list" where
  "pair_lines file_pair =
     (case snd file_pair of
        LoadFailed \<Rightarrow> []
      | Loaded pages \<Rightarrow> concat (map (\<lambda>page. get_or_empty (pg_lines page)) pages))"

definition pair_warnings :: "string \<times> load_result \<Rightarrow> message list" where
  "pair_warnings file_pair =
     (case snd file_pair of
        LoadFailed \<Rightarrow> [ParseWarning (fst file_pair)]
      | Loaded pages \<Rightarrow> [])"

section \<open>The full mode of main: analysis, then one workflow per file pair\<close>

text \<open>
  \<^verbatim>\<open>process_full_workflow\<close> from line 57 on, for one file pair: line 58 loads the JSON
  file a second time, in a \<^verbatim>\<open>try\<close> with a \<^verbatim>\<open>finally\<close> and no \<^verbatim>\<open>except\<close>, so for a file
  that did not load the exception leaves the function. \<open>n\<close> is the number of pages
  of the pair's PDF.
\<close>

definition process_pair :: "load_result \<Rightarrow> nat \<Rightarrow> real \<Rightarrow> pyerr + workflow_result" where
  "process_pair loaded n height_cutoff =
     (case loaded of
        LoadFailed \<Rightarrow> Inl JSONDecodeError
      | Loaded pages_data \<Rightarrow> process_full_workflow pages_data n height_cutoff)"

text \<open>
  The loop of lines 183 to 187, which has no \<^verbatim>\<open>try\<close>: the outputs of the pairs processed
  so far, and the exception that ended the loop, if any.
\<close>

fun process_pairs ::
  "((string \<times> load_result) \<times> nat) list \<Rightarrow> real
     \<Rightarrow> (string \<times> workflow_result) list \<times> pyerr option" where
  "process_pairs [] height_cutoff = ([], None)"
| "process_pairs (((name, loaded), n) # rest) height_cutoff =
     (case process_pair loaded n height_cutoff of
        Inl e \<Rightarrow> ([], Some e)
      | Inr out \<Rightarrow>
          (case process_pairs rest height_cutoff of
             (outs, err) \<Rightarrow> ((name, out) # outs, err)))"

text \<open>How the full mode ends: \<^verbatim>\<open>sys.exit\<close>, an exception out of the analysis, an
  exception out of the loop over the pairs, or the end of \<^verbatim>\<open>main\<close>.\<close>

datatype main_result = SysExit nat | AnalysisRaised | Uncaught pyerr | Completed

text \<open>
  Lines 157 to 187, with the font found: the messages of the analysis, the outputs
  written, and how the run ends.
\<close>

definition main_full_mode ::
  "((string \<times> load_result) \<times> nat) list
     \<Rightarrow> message list \<times> (string \<times> workflow_result) list \<times> main_result" where
  "main_full_mode files =
     (case global_analysis (map fst files) of
        (Exit code, msgs) \<Rightarrow> (msgs, [], SysExit code)
      | (NumpyFailure, msgs) \<Rightarrow> (msgs, [], AnalysisRaised)
      | (Cutoff global_height_cutoff, msgs) \<Rightarrow>
          (case process_pairs files global_height_cutoff of
             (outs, None) \<Rightarrow> (msgs, outs, Completed)
           | (outs, Some e) \<Rightarrow> (msgs, outs, Uncaught e)))"

section \<open>remove_ocr_textlayer.py: rebuilding a PDF in place\<close>

text \<open>
  A path is its directory and its file name; the file system maps the paths of the
  files that exist to their contents (see below).
\<close>

type_synonym path = "string \<times> string"

text \<open>
  \<^verbatim>\<open>PurePath.suffix\<close> and \<^verbatim>\<open>with_suffix\<close> of pathlib (as up to Python 3.12): the
  suffix starts at the last dot of the name, unless that dot is the first or the last
  character; \<^verbatim>\<open>with_suffix\<close> replaces the suffix, or appends to a name without one.
\<close>

definition rfind_dot :: "string \<Rightarrow> nat option" where
  "rfind_dot name =
     (if CHR ''.'' \<in> set name
      then Some (length name - 1 - length (takeWhile (\<lambda>c. c \<noteq> CHR ''.'') (rev name)))
      else None)"

definition suffix_of :: "string \<Rightarrow> string" where
  "suffix_of name =
     (case rfind_dot name of
        None \<Rightarrow> []
      | Some i \<Rightarrow> if 0 < i \<and> i < length name - 1 then drop i name else [])"

definition with_suffix :: "path \<Rightarrow> string \<Rightarrow> path" where
  "with_suffix p new_suffix =
     (fst p, take (length (snd p) - length (suffix_of (snd p))) (snd p) @ new_suffix)"

text \<open>
  A file is the bytes of some PDF, or a document saved by \<^verbatim>\<open>new_doc.save\<close>: its pages,
  each with the raw image streams inserted into it, or what a failed save left behind.
\<close>

datatype file_content = Bytes string | Rebuilt "string list list" | PartialFile

type_synonym filesystem = "path \<Rightarrow> file_content option"

text \<open>
  What the calls outside the program do in one run. For an image of a page: the raw
  stream that \<^verbatim>\<open>extract_image\<close> returns, or an exception in lines 55 to 62. For a page:
  an exception of \<^verbatim>\<open>new_page\<close> or \<^verbatim>\<open>get_images\<close>, or its images. For the run: whether
  \<^verbatim>\<open>shutil.copy2\<close> succeeds; whether \<^verbatim>\<open>fitz.open\<close> raises, or else the pages of the
  original; whether \<^verbatim>\<open>new_doc.save\<close> succeeds, and if it raises, the file it left at
  the temporary path, if any; whether \<^verbatim>\<open>shutil.move\<close> succeeds (a move that fails
  leaves both files as they were).
\<close>

datatype image_result = ImageOk string | ImageError

datatype page_result = PageError | PageImages "image_result list"

datatype save_result = Saved | SaveError "file_content option"

record environment =
  env_copy_ok :: bool
  env_open :: "page_result list option"
  env_save :: save_result
  env_move_ok :: bool

text \<open>How the call ends: by \<^verbatim>\<open>return\<close>, or with the exception of the backup copy.\<close>

datatype ending = Returned | Raised

text \<open>The loop of lines 51 to 64 over the images of a page: an image whose
  extraction or insertion raises is reported and skipped.\<close>

fun rebuild_page :: "image_result list \<Rightarrow> string list" where
  "rebuild_page [] = []"
| "rebuild_page (ImageOk img_bytes # img_list) = img_bytes # rebuild_page img_list"
| "rebuild_page (ImageError # img_list) = rebuild_page img_list"

text \<open>The loop of lines 36 to 64 over the pages; \<open>None\<close> when an exception leaves it.\<close>

fun rebuild_pages :: "page_result list \<Rightarrow> string list list option" where
  "rebuild_pages [] = Some []"
| "rebuild_pages (PageError # original_pages) = None"
| "rebuild_pages (PageImages img_list # original_pages) =
     (case rebuild_pages original_pages of
        None \<Rightarrow> None
      | Some new_pages \<Rightarrow> Some (rebuild_page img_list # new_pages))"

text \<open>Lines 33 to 64: the rebuilt document, or \<open>None\<close> for an exception.\<close>

definition build_new_doc :: "environment \<Rightarrow> string list list option" where
  "build_new_doc env =
     (case env_open env of
        None \<Rightarrow> None
      | Some original_pages \<Rightarrow> rebuild_pages original_pages)"

text \<open>\<^verbatim>\<open>if temp_output_path.exists(): os.remove(temp_output_path)\<close>\<close>

definition remove_if_exists :: "filesystem \<Rightarrow> path \<Rightarrow> filesystem" where
  "remove_if_exists fs p = (if fs p \<noteq> None then fs(p := None) else fs)"

text \<open>Lines 28 to 83, from a file system in which the backup, if asked for, is made.\<close>

definition rebuild_and_replace :: "environment \<Rightarrow> filesystem \<Rightarrow> path \<Rightarrow> filesystem" where
  "rebuild_and_replace env fs pdf_path =
     (let temp_output_path = with_suffix pdf_path ''.tmp.pdf''
      in case build_new_doc env of
           None \<Rightarrow> remove_if_exists fs temp_output_path
         | Some new_doc \<Rightarrow>
             (case env_save env of
                SaveError None \<Rightarrow> remove_if_exists fs temp_output_path
              | SaveError (Some partial) \<Rightarrow>
                  remove_if_exists (fs(temp_output_path \<mapsto> partial)) temp_output_path
              | Saved \<Rightarrow>
                  (let fs' = fs(temp_output_path \<mapsto> Rebuilt new_doc)
                   in if env_move_ok env
                      then (fs'(pdf_path := fs' temp_output_path))(temp_output_path := None)
                      else remove_if_exists fs' temp_output_path)))"

text \<open>\<^verbatim>\<open>rebuild_from_images\<close>, lines 9 to 83.\<close>

definition rebuild_from_images ::
  "environment \<Rightarrow> filesystem \<Rightarrow> path \<Rightarrow> bool \<Rightarrow> ending \<times> filesystem" where
  "rebuild_from_images env fs pdf_path create_backup =
     (case fs pdf_path of
        None \<Rightarrow> (Returned, fs)
      | Some original \<Rightarrow>
          if create_backup
          then (if env_copy_ok env
                then (Returned,
                      rebuild_and_replace env
                        (fs(with_suffix pdf_path ''.bak.pdf'' \<mapsto> original)) pdf_path)
                else (Raised, fs))
          else (Returned, rebuild_and_replace env fs pdf_path))"

section \<open>Example data\<close>

text \<open>A line with a rectangle of height \<open>h\<close> as its polygon and one span; a word with
  a span offset and a polygon; a page with its lines and words.\<close>

definition ex_line :: "real \<Rightarrow> string \<Rightarrow> int \<Rightarrow> int \<Rightarrow> ocr_line" where
  "ex_line h line_text off len =
     \<lparr>it_polygon = Some [0, 0, 10, 0, 10, h, 0, h], it_boundingBox = None,
      it_content = Some line_text, it_text = None,
      ln_spans = Some [\<lparr>sp_offset = off, sp_length = len\<rparr>]\<rparr>"

definition ex_word :: "int \<Rightarrow> real list \<Rightarrow> ocr_word" where
  "ex_word off poly =
     \<lparr>it_polygon = Some poly, it_boundingBox = None,
      it_content = Some ''w'', it_text = None,
      wd_span = Some \<lparr>ws_offset = Some off\<rparr>\<rparr>"

definition ex_page :: "int \<Rightarrow> string option \<Rightarrow> ocr_line list \<Rightarrow> ocr_word list \<Rightarrow> page" where
  "ex_page num u ls ws =
     \<lparr>pg_pageNumber = num, pg_unit = u, pg_lines = Some ls, pg_words = Some ws\<rparr>"

section \<open>Facts about the schema utilities\<close>

lemma key_present_and_truthy_dict:
  "key_present_and_truthy k (JObj kvs) =
     Inr (case map_of kvs k of None \<Rightarrow> False | Some v \<Rightarrow> py_truthy v)"
  by (simp add: key_present_and_truthy_def split: option.splits)

lemma analyze_result_has_pages_dict:
  "analyze_result_has_pages (JObj kvs) =
     Inr (case map_of kvs ''analyzeResult'' of
            Some (JObj a) \<Rightarrow> map_of a ''pages'' \<noteq> None
          | _ \<Rightarrow> False)"
  by (simp add: analyze_result_has_pages_def split: option.splits json.splits)

lemma get_pages_from_json_dict_total:
  "\<exists>v. get_pages_from_json (JObj kvs) = Inr v"
  by (auto simp: get_pages_from_json_def key_present_and_truthy_dict
      analyze_result_has_pages_dict split: option.splits json.splits bool.splits)

section \<open>Facts about the geometry\<close>

lemma py_max_eq_Max: "ys \<noteq> [] \<Longrightarrow> py_max ys = Max (set ys)"
proof (cases ys)
  case (Cons y rest)
  then show ?thesis using Max.set_eq_fold [of y rest] by simp
qed simp

lemma py_min_eq_Min: "ys \<noteq> [] \<Longrightarrow> py_min ys = Min (set ys)"
proof (cases ys)
  case (Cons y rest)
  then show ?thesis using Min.set_eq_fold [of y rest] by simp
qed simp

lemma set_y_coords: "set (y_coords p) = {p ! i | i. i < length p \<and> odd i}"
proof -
  have "{i. 1 \<le> i \<and> i < length p \<and> odd i} = {i. i < length p \<and> odd i}"
    by (auto simp: Suc_le_eq elim: oddE)
  then show ?thesis
    by (auto simp: y_coords_def image_def Suc_le_eq elim: oddE)
qed

lemma y_coords_nonempty: "2 \<le> length p \<Longrightarrow> y_coords p \<noteq> []"
proof -
  assume "2 \<le> length p"
  then have "(1::nat) \<in> set (filter odd [1..<length p])" by simp
  then show ?thesis unfolding y_coords_def by (metis empty_iff list.set(1) map_is_Nil_conv)
qed

lemma y_coords_8: "y_coords [x0, y0, x1, y1, x2, y2, x3, y3] = [y0, y1, y2, y3]"
  by (simp add: y_coords_def upt_rec)

lemma get_polygon_height_8:
  "get_polygon_height (Some [x0, y0, x1, y1, x2, y2, x3, y3]) =
     max y3 (max y2 (max y1 y0)) - min y3 (min y2 (min y1 y0))"
  by (simp add: get_polygon_height_def get_or_empty_def py_not_def y_coords_8)

section \<open>Claims about the schema utilities and the geometry\<close>

text \<open>
  C5. The claim: the page extraction tries \<^verbatim>\<open>pages\<close>, \<^verbatim>\<open>analyzeResult.pages\<close> and
  \<^verbatim>\<open>readResults\<close> in that order and returns the first non-empty match, or an empty
  sequence if none matches, and never raises. The second branch tests only that the
  key is there, not that its value is non-empty as the first and third do: on a
  document whose \<^verbatim>\<open>analyzeResult.pages\<close> is empty and whose \<^verbatim>\<open>readResults\<close> holds a page,
  the function returns the empty list and not the pages of \<^verbatim>\<open>readResults\<close>. The same
  document with the empty list under \<^verbatim>\<open>pages\<close> instead does fall through to
  \<^verbatim>\<open>readResults\<close>.
\<close>

theorem get_pages_from_json_empty_analyzeResult:
  "get_pages_from_json
     (JObj [(''analyzeResult'', JObj [(''pages'', JArr [])]),
            (''readResults'', JArr [JObj [(''pageNumber'', JNum 1)]])])
   = Inr (JArr [])
   \<and> get_pages_from_json
     (JObj [(''pages'', JArr []),
            (''readResults'', JArr [JObj [(''pageNumber'', JNum 1)]])])
   = Inr (JArr [JObj [(''pageNumber'', JNum 1)]])"
  by (simp add: get_pages_from_json_def key_present_and_truthy_def analyze_result_has_pages_def)

text \<open>
  C6. For every page sequence \<open>P\<close>, a document that stores \<open>P\<close> under the top-level
  key \<^verbatim>\<open>pages\<close> and a document that stores \<open>P\<close> under \<^verbatim>\<open>analyzeResult.pages\<close> give the
  same pages, namely \<open>P\<close>. The two documents may carry any other keys (\<open>rest\<close>, and
  \<open>other\<close> inside \<^verbatim>\<open>analyzeResult\<close>), as long as \<open>rest\<close> holds none of the three container
  keys.
\<close>

theorem pages_and_analyzeResult_agree:
  assumes "map_of rest ''pages'' = None"
    and "map_of rest ''analyzeResult'' = None"
    and "map_of rest ''readResults'' = None"
  shows "get_pages_from_json (JObj ((''pages'', JArr P) # rest)) = Inr (JArr P)
     \<and> get_pages_from_json
          (JObj ((''analyzeResult'', JObj ((''pages'', JArr P) # other)) # rest)) = Inr (JArr P)"
proof (cases "P = []")
  case True
  with assms show ?thesis
    by (simp add: get_pages_from_json_def key_present_and_truthy_dict
        analyze_result_has_pages_dict)
next
  case False
  with assms show ?thesis
    by (simp add: get_pages_from_json_def key_present_and_truthy_dict
        analyze_result_has_pages_dict)
qed

theorem pages_and_analyzeResult_agree_witness:
  "get_pages_from_json
     (JObj [(''pages'', JArr [JObj [(''pageNumber'', JNum 1)]]), (''status'', JStr ''succeeded'')])
   = Inr (JArr [JObj [(''pageNumber'', JNum 1)]])
   \<and> get_pages_from_json
     (JObj [(''analyzeResult'',
             JObj [(''pages'', JArr [JObj [(''pageNumber'', JNum 1)]]), (''version'', JStr ''3'')]),
            (''status'', JStr ''succeeded'')])
   = Inr (JArr [JObj [(''pageNumber'', JNum 1)]])"
  using pages_and_analyzeResult_agree
    [of "[(''status'', JStr ''succeeded'')]" "[JObj [(''pageNumber'', JNum 1)]]"
        "[(''version'', JStr ''3'')]"]
  by simp

text \<open>
  C7. \<^verbatim>\<open>get_polygon_height\<close> returns 0 when the polygon is absent or has fewer than
  4 coordinate pairs (fewer than 8 numbers), and otherwise the maximum minus the
  minimum of the coordinates at the odd indices.
\<close>

theorem get_polygon_height_spec:
  "get_polygon_height None = 0
   \<and> (length p < 8 \<longrightarrow> get_polygon_height (Some p) = 0)
   \<and> (8 \<le> length p \<longrightarrow>
        get_polygon_height (Some p) =
          Max {p ! i | i. i < length p \<and> odd i} - Min {p ! i | i. i < length p \<and> odd i})"
proof -
  have a: "get_polygon_height None = 0"
    by (simp add: get_polygon_height_def py_not_def)
  have b: "length p < 8 \<longrightarrow> get_polygon_height (Some p) = 0"
    by (simp add: get_polygon_height_def get_or_empty_def)
  have c: "8 \<le> length p \<longrightarrow>
        get_polygon_height (Some p) =
          Max {p ! i | i. i < length p \<and> odd i} - Min {p ! i | i. i < length p \<and> odd i}"
  proof
    assume len: "8 \<le> length p"
    then have ne: "y_coords p \<noteq> []" by (intro y_coords_nonempty) simp
    from len have "p \<noteq> []" by auto
    then have "\<not> py_not (Some p)" by (cases p) (simp_all add: py_not_def)
    with len have "get_polygon_height (Some p) = py_max (y_coords p) - py_min (y_coords p)"
      by (simp add: get_polygon_height_def get_or_empty_def)
    then show "get_polygon_height (Some p) =
          Max {p ! i | i. i < length p \<and> odd i} - Min {p ! i | i. i < length p \<and> odd i}"
      using ne by (simp add: py_max_eq_Max py_min_eq_Min set_y_coords)
  qed
  from a b c show ?thesis by blast
qed

theorem get_polygon_height_spec_witness:
  "get_polygon_height (Some [0, 1, 5]) = 0
   \<and> get_polygon_height (Some [0, 1, 5, 2, 5, 9, 0, 8]) = 8
   \<and> Max {[0, 1, 5, 2, 5, 9, 0, 8 :: real] ! i | i. i < 8 \<and> odd i}
       - Min {[0, 1, 5, 2, 5, 9, 0, 8 :: real] ! i | i. i < 8 \<and> odd i} = 8"
proof -
  have h: "get_polygon_height (Some [0, 1, 5, 2, 5, 9, 0, 8]) = 8"
    by (simp add: get_polygon_height_8)
  have "get_polygon_height (Some [0, 1, 5]) = 0"
    using get_polygon_height_spec [of "[0, 1, 5]"] by simp
  moreover have "Max {[0, 1, 5, 2, 5, 9, 0, 8 :: real] ! i | i. i < 8 \<and> odd i}
       - Min {[0, 1, 5, 2, 5, 9, 0, 8 :: real] ! i | i. i < 8 \<and> odd i} = 8"
    using get_polygon_height_spec [of "[0, 1, 5, 2, 5, 9, 0, 8]"] h
    by (simp add: eval_nat_numeral)
  ultimately show ?thesis using h by simp
qed

section \<open>Facts about the full workflow\<close>

lemma py_not_iff: "py_not a \<longleftrightarrow> get_or_empty a = []"
  by (auto simp: py_not_def get_or_empty_def split: option.splits list.splits)

lemma retained_texts_alt:
  "retained_texts ls = filter (\<lambda>t. t \<noteq> []) (map (\<lambda>l. get_or_empty (get_item_text l)) ls)"
  by (induction ls) (simp_all add: retained_texts_def py_not_iff)

lemma py_join_Nil_iff: "[] \<notin> set xs \<Longrightarrow> py_join sep xs = [] \<longleftrightarrow> xs = []"
  by (induction sep xs rule: py_join.induct) auto

lemma retained_texts_nonempty: "[] \<notin> set (retained_texts ls)"
  by (simp add: retained_texts_alt)

lemma page_text_for_rag_Nil_iff:
  "page_text_for_rag c p = [] \<longleftrightarrow> retained_texts (main_text_lines c p) = []"
  by (simp add: page_text_for_rag_def py_join_Nil_iff retained_texts_nonempty)

lemma page_loop_chunks:
  "page_loop sf c n i ps = Inr (ins, chunks) \<Longrightarrow>
     chunks = concat (map (page_chunks c) (take (n - i) ps))"
proof (induction ps arbitrary: i ins chunks)
  case Nil
  then show ?case by simp
next
  case (Cons p ps)
  show ?case
  proof (cases "i \<ge> n")
    case True
    with Cons.prems show ?thesis by simp
  next
    case False
    then obtain m where m: "n - i = Suc m" "n - (i + 1) = m"
      by (metis Suc_diff_Suc Suc_eq_plus1 diff_diff_left not_le)
    from False Cons.prems obtain a b ch where
      "page_loop sf c n (i + 1) ps = Inr (b, ch)" "chunks = page_chunks c p @ ch"
      by (auto split: sum.splits prod.splits)
    with Cons.IH [of "i + 1" b ch] m show ?thesis by simp
  qed
qed

lemma insert_word_Inr:
  "insert_word sf i w = Inr xs \<Longrightarrow> x \<in> set xs \<Longrightarrow>
     \<exists>poly t. get_item_poly w = Some poly \<and> 8 \<le> length poly
       \<and> get_item_text w = Some t \<and> t \<noteq> []
       \<and> x = \<lparr>ins_page = i, ins_x = poly ! 6 * sf, ins_y = poly ! 7 * sf, ins_text = t\<rparr>"
  by (auto simp: insert_word_def py_not_iff get_or_empty_def Let_def
      split: if_splits option.splits)

lemma insert_words_Inr:
  "insert_words sf i ws = Inr xs \<Longrightarrow> x \<in> set xs \<Longrightarrow>
     \<exists>w \<in> set ws. \<exists>poly t. get_item_poly w = Some poly \<and> 8 \<le> length poly
       \<and> get_item_text w = Some t \<and> t \<noteq> []
       \<and> x = \<lparr>ins_page = i, ins_x = poly ! 6 * sf, ins_y = poly ! 7 * sf, ins_text = t\<rparr>"
proof (induction ws arbitrary: xs)
  case Nil
  then show ?case by simp
next
  case (Cons w ws)
  from Cons.prems(1) obtain a b where
    ab: "insert_word sf i w = Inr a" "insert_words sf i ws = Inr b" "xs = a @ b"
    by (auto split: sum.splits)
  with Cons.prems(2) consider "x \<in> set a" | "x \<in> set b" by auto
  then show ?case
  proof cases
    case 1
    with ab(1) insert_word_Inr [of sf i w a x] show ?thesis by auto
  next
    case 2
    with ab(2) Cons.IH [of b] show ?thesis by auto
  qed
qed

lemma set_line_word_matches:
  "set (line_word_matches l ws) =
     {(s, w). s \<in> set (get_or_empty (ln_spans l)) \<and> w \<in> set ws
        \<and> sp_offset s \<le> word_start w \<and> word_start w < sp_offset s + sp_length s}"
  by (auto simp: line_word_matches_def)

lemma set_page_matches:
  "set (page_matches c p) =
     {(l, s, w). l \<in> set (main_text_lines c p) \<and> (s, w) \<in> set (line_word_matches l (get_or_empty (pg_words p)))}"
  by (auto simp: page_matches_def)

lemma page_insertions_Inr:
  assumes "page_insertions sf c i p = Inr xs" and "x \<in> set xs"
  shows "\<exists>w \<in> set (get_or_empty (pg_words p)). \<exists>poly t. get_item_poly w = Some poly \<and> 8 \<le> length poly
       \<and> get_item_text w = Some t \<and> t \<noteq> []
       \<and> x = \<lparr>ins_page = i, ins_x = poly ! 6 * sf, ins_y = poly ! 7 * sf, ins_text = t\<rparr>"
proof -
  from insert_words_Inr [OF assms [unfolded page_insertions_def]]
  obtain w poly t where w: "w \<in> set (map (\<lambda>(line, line_span, word). word) (page_matches c p))"
    and r: "get_item_poly w = Some poly" "8 \<le> length poly" "get_item_text w = Some t" "t \<noteq> []"
      "x = \<lparr>ins_page = i, ins_x = poly ! 6 * sf, ins_y = poly ! 7 * sf, ins_text = t\<rparr>"
    by blast
  from w have "w \<in> set (get_or_empty (pg_words p))"
    by (auto simp: set_page_matches set_line_word_matches)
  with r show ?thesis by blast
qed

lemma page_loop_insertions:
  "page_loop sf c n i ps = Inr (ins, chunks) \<Longrightarrow> x \<in> set ins \<Longrightarrow>
     \<exists>j < length ps. i + j < n \<and> ins_page x = i + j \<and>
       (\<exists>w \<in> set (get_or_empty (pg_words (ps ! j))). \<exists>poly t.
          get_item_poly w = Some poly \<and> 8 \<le> length poly
          \<and> get_item_text w = Some t \<and> t \<noteq> []
          \<and> x = \<lparr>ins_page = i + j, ins_x = poly ! 6 * sf, ins_y = poly ! 7 * sf, ins_text = t\<rparr>)"
proof (induction ps arbitrary: i ins chunks)
  case Nil
  then show ?case by simp
next
  case (Cons p ps)
  show ?case
  proof (cases "i \<ge> n")
    case True
    with Cons.prems show ?thesis by simp
  next
    case False
    with Cons.prems(1) obtain a b ch where
      ab: "page_insertions sf c i p = Inr a" "page_loop sf c n (i + 1) ps = Inr (b, ch)"
        "ins = a @ b"
      by (auto split: sum.splits prod.splits)
    with Cons.prems(2) consider "x \<in> set a" | "x \<in> set b" by auto
    then show ?thesis
    proof cases
      case 1
      from page_insertions_Inr [OF ab(1) 1] False
      show ?thesis by (intro exI [of _ 0]) auto
    next
      case 2
      from Cons.IH [OF ab(2) 2] obtain j where
        j: "j < length ps" "i + 1 + j < n" "ins_page x = i + 1 + j"
        "\<exists>w \<in> set (get_or_empty (pg_words (ps ! j))). \<exists>poly t.
          get_item_poly w = Some poly \<and> 8 \<le> length poly
          \<and> get_item_text w = Some t \<and> t \<noteq> []
          \<and> x = \<lparr>ins_page = i + 1 + j, ins_x = poly ! 6 * sf, ins_y = poly ! 7 * sf, ins_text = t\<rparr>"
        by blast
      then show ?thesis by (intro exI [of _ "Suc j"]) auto
    qed
  qed
qed

lemma word_without_span_not_associated:
  assumes "wd_span w = None \<or> wd_span w = Some \<lparr>ws_offset = None\<rparr>"
    and "\<forall>s \<in> set (get_or_empty (ln_spans l)). 0 \<le> sp_offset s"
  shows "\<not> (\<exists>s. (s, w) \<in> set (line_word_matches l page_words))"
proof -
  from assms(1) have "word_start w = - 1" by (auto simp: word_start_def)
  with assms(2) show ?thesis by (auto simp: set_line_word_matches)
qed

lemma insert_word_total:
  assumes "get_item_poly w = Some poly" and "8 \<le> length poly"
  shows "\<exists>xs. insert_word sf i w = Inr xs"
  using assms by (auto simp: insert_word_def Let_def get_or_empty_def)

lemmas ex_defs = ex_line_def ex_word_def ex_page_def

lemmas workflow_defs =
  process_full_workflow_def scale_factor_of_def page_insertions_def page_matches_def
  main_text_lines_def line_word_matches_def word_start_def insert_word_def
  get_item_poly_def get_item_text_def py_or_def py_not_def get_or_empty_def
  get_polygon_height_8 page_chunks_def page_text_for_rag_def retained_texts_def

lemma ex_workflow:
  "process_full_workflow
     [ex_page 1 (Some ''inch'')
        [ex_line 30 ''main'' 10 10, ex_line 15 ''ruby'' 20 5, ex_line 30 ''text'' 25 5]
        [ex_word 15 [0, 0, 5, 0, 5, 1, 1, 1], ex_word 20 [0, 0, 5, 0, 5, 1, 1, 1]],
      ex_page 2 (Some ''pixel'') [ex_line 15 ''ruby'' 20 5] [ex_word 20 [0, 0, 5, 0, 5, 1, 1, 1]]]
     2 21
   = Inr \<lparr>wr_text_layer = [\<lparr>ins_page = 0, ins_x = 72, ins_y = 72, ins_text = ''w''\<rparr>],
          wr_rag_json = Some [\<lparr>ch_page_number = 1, ch_type = ''page_content'',
                               ch_content = ''main'' @ [CHR 0x0A] @ ''text''\<rparr>]\<rparr>"
  by (simp add: workflow_defs ex_defs)

section \<open>Claims about the full workflow\<close>

text \<open>
  C2. When the full workflow completes, the RAG chunks are those of the pages it
  processed (the first \<open>n\<close> OCR pages, \<open>n\<close> the number of PDF pages), in order. For
  every page, the main-text lines are exactly the lines whose polygon height is at
  least the cutoff; the chunk content is the newline-joined text of the main-text
  lines with non-empty text; and when that joined text is empty the page gives no
  chunk.
\<close>

theorem rag_chunks_of_full_workflow:
  assumes "process_full_workflow pages_data n height_cutoff = Inr r"
  shows "get_or_empty (wr_rag_json r) =
           concat (map (page_chunks height_cutoff) (take n pages_data))
    \<and> main_text_lines height_cutoff p =
        filter (\<lambda>l. get_polygon_height (get_item_poly l) \<ge> height_cutoff)
          (get_or_empty (pg_lines p))
    \<and> page_chunks height_cutoff p =
        (let joined = py_join [CHR 0x0A]
           (filter (\<lambda>t. t \<noteq> [])
              (map (\<lambda>l. get_or_empty (get_item_text l)) (main_text_lines height_cutoff p)))
         in if joined = [] then []
            else [\<lparr>ch_page_number = pg_pageNumber p, ch_type = ''page_content'',
                   ch_content = joined\<rparr>])"
proof -
  have a: "get_or_empty (wr_rag_json r) =
           concat (map (page_chunks height_cutoff) (take n pages_data))"
  proof (cases pages_data)
    case Nil
    with assms show ?thesis by (auto simp: process_full_workflow_def get_or_empty_def)
  next
    case (Cons first_page more)
    with assms obtain ins chunks where
      l: "page_loop (scale_factor_of first_page) height_cutoff n 0 pages_data = Inr (ins, chunks)"
      and r: "wr_rag_json r = (if chunks \<noteq> [] then Some chunks else None)"
      by (auto simp: process_full_workflow_def split: sum.splits prod.splits)
    from page_loop_chunks [OF l] r show ?thesis by (simp add: get_or_empty_def)
  qed
  have b: "main_text_lines height_cutoff p =
        filter (\<lambda>l. get_polygon_height (get_item_poly l) \<ge> height_cutoff)
          (get_or_empty (pg_lines p))"
    by (simp add: main_text_lines_def)
  have c: "page_chunks height_cutoff p =
        (let joined = py_join [CHR 0x0A]
           (filter (\<lambda>t. t \<noteq> [])
              (map (\<lambda>l. get_or_empty (get_item_text l)) (main_text_lines height_cutoff p)))
         in if joined = [] then []
            else [\<lparr>ch_page_number = pg_pageNumber p, ch_type = ''page_content'',
                   ch_content = joined\<rparr>])"
    by (simp add: page_chunks_def page_text_for_rag_def retained_texts_alt Let_def)
  from a b c show ?thesis by blast
qed

theorem rag_chunks_of_full_workflow_witness:
  "process_full_workflow
     [ex_page 1 (Some ''inch'')
        [ex_line 30 ''main'' 10 10, ex_line 15 ''ruby'' 20 5, ex_line 30 ''text'' 25 5]
        [ex_word 15 [0, 0, 5, 0, 5, 1, 1, 1], ex_word 20 [0, 0, 5, 0, 5, 1, 1, 1]],
      ex_page 2 (Some ''pixel'') [ex_line 15 ''ruby'' 20 5] [ex_word 20 [0, 0, 5, 0, 5, 1, 1, 1]]]
     2 21
   = Inr \<lparr>wr_text_layer = [\<lparr>ins_page = 0, ins_x = 72, ins_y = 72, ins_text = ''w''\<rparr>],
          wr_rag_json = Some [\<lparr>ch_page_number = 1, ch_type = ''page_content'',
                               ch_content = ''main'' @ [CHR 0x0A] @ ''text''\<rparr>]\<rparr>
   \<and> concat (map (page_chunks 21) (take 2
     [ex_page 1 (Some ''inch'')
        [ex_line 30 ''main'' 10 10, ex_line 15 ''ruby'' 20 5, ex_line 30 ''text'' 25 5]
        [ex_word 15 [0, 0, 5, 0, 5, 1, 1, 1], ex_word 20 [0, 0, 5, 0, 5, 1, 1, 1]],
      ex_page 2 (Some ''pixel'') [ex_line 15 ''ruby'' 20 5] [ex_word 20 [0, 0, 5, 0, 5, 1, 1, 1]]]))
     = [\<lparr>ch_page_number = 1, ch_type = ''page_content'',
         ch_content = ''main'' @ [CHR 0x0A] @ ''text''\<rparr>]
   \<and> main_text_lines 21
        (ex_page 2 (Some ''pixel'') [ex_line 15 ''ruby'' 20 5] [ex_word 20 [0, 0, 5, 0, 5, 1, 1, 1]])
     = []
   \<and> page_chunks 21
        (ex_page 2 (Some ''pixel'') [ex_line 15 ''ruby'' 20 5] [ex_word 20 [0, 0, 5, 0, 5, 1, 1, 1]])
     = []"
proof -
  note t = rag_chunks_of_full_workflow [OF ex_workflow,
      of "ex_page 2 (Some ''pixel'') [ex_line 15 ''ruby'' 20 5] [ex_word 20 [0, 0, 5, 0, 5, 1, 1, 1]]"]
  have m: "main_text_lines 21
        (ex_page 2 (Some ''pixel'') [ex_line 15 ''ruby'' 20 5] [ex_word 20 [0, 0, 5, 0, 5, 1, 1, 1]])
     = []"
    using t by (simp add: ex_defs get_or_empty_def get_item_poly_def py_or_def get_polygon_height_8)
  from t have "page_chunks 21
        (ex_page 2 (Some ''pixel'') [ex_line 15 ''ruby'' 20 5] [ex_word 20 [0, 0, 5, 0, 5, 1, 1, 1]])
     = []"
    unfolding m by simp
  with t m ex_workflow show ?thesis by (simp add: get_or_empty_def)
qed

text \<open>
  C3. A word with a span offset is matched with a line (some span of the line passes
  the test of line 85 for it) if and only if the offset lies in
  \<open>[offset, offset + length)\<close> for some span of the line: the start is included, the
  end is not. On a page the loops reach the main-text lines only.
\<close>

theorem word_line_association:
  assumes "wd_span w = Some ws" and "ws_offset ws = Some off"
  shows "((\<exists>s. (s, w) \<in> set (line_word_matches l page_words)) \<longleftrightarrow>
            w \<in> set page_words \<and>
            (\<exists>s \<in> set (get_or_empty (ln_spans l)).
               sp_offset s \<le> off \<and> off < sp_offset s + sp_length s))
    \<and> ((\<exists>s. (l, s, w) \<in> set (page_matches height_cutoff p)) \<longleftrightarrow>
            l \<in> set (main_text_lines height_cutoff p) \<and>
            w \<in> set (get_or_empty (pg_words p)) \<and>
            (\<exists>s \<in> set (get_or_empty (ln_spans l)).
               sp_offset s \<le> off \<and> off < sp_offset s + sp_length s))"
proof -
  from assms have "word_start w = off" by (simp add: word_start_def)
  then show ?thesis
    by (auto simp: set_page_matches set_line_word_matches)
qed

theorem word_line_association_witness:
  "(\<exists>s. (s, ex_word 15 [0, 0, 5, 0, 5, 1, 1, 1]) \<in>
      set (line_word_matches (ex_line 30 ''main'' 10 10) [ex_word 15 [0, 0, 5, 0, 5, 1, 1, 1]]))
   \<and> \<not> (\<exists>s. (s, ex_word 15 [0, 0, 5, 0, 5, 1, 1, 1]) \<in>
      set (line_word_matches (ex_line 30 ''next'' 20 5) [ex_word 15 [0, 0, 5, 0, 5, 1, 1, 1]]))
   \<and> \<not> (\<exists>s. (s, ex_word 20 [0, 0, 5, 0, 5, 1, 1, 1]) \<in>
      set (line_word_matches (ex_line 30 ''main'' 10 10) [ex_word 20 [0, 0, 5, 0, 5, 1, 1, 1]]))
   \<and> (\<exists>s. (s, ex_word 20 [0, 0, 5, 0, 5, 1, 1, 1]) \<in>
      set (line_word_matches (ex_line 30 ''next'' 20 5) [ex_word 20 [0, 0, 5, 0, 5, 1, 1, 1]]))"
proof -
  have s: "wd_span (ex_word off poly) = Some \<lparr>ws_offset = Some off\<rparr>"
    "ws_offset \<lparr>ws_offset = Some off\<rparr> = Some off" for off poly
    by (simp_all add: ex_word_def)
  have l: "get_or_empty (ln_spans (ex_line h c off len)) = [\<lparr>sp_offset = off, sp_length = len\<rparr>]"
    for h c off len
    by (simp add: ex_line_def get_or_empty_def)
  show ?thesis
    using word_line_association [OF s, of 15 "[0, 0, 5, 0, 5, 1, 1, 1]" "ex_line 30 ''main'' 10 10"
        "[ex_word 15 [0, 0, 5, 0, 5, 1, 1, 1]]"]
      word_line_association [OF s, of 15 "[0, 0, 5, 0, 5, 1, 1, 1]" "ex_line 30 ''next'' 20 5"
        "[ex_word 15 [0, 0, 5, 0, 5, 1, 1, 1]]"]
      word_line_association [OF s, of 20 "[0, 0, 5, 0, 5, 1, 1, 1]" "ex_line 30 ''main'' 10 10"
        "[ex_word 20 [0, 0, 5, 0, 5, 1, 1, 1]]"]
      word_line_association [OF s, of 20 "[0, 0, 5, 0, 5, 1, 1, 1]" "ex_line 30 ''next'' 20 5"
        "[ex_word 20 [0, 0, 5, 0, 5, 1, 1, 1]]"]
    by (simp add: l)
qed

text \<open>
  C4. The claim: the insertion point of a word is its polygon's coordinates at indices
  6 and 7, multiplied by 72 if the unit of the word's page is \<^verbatim>\<open>inch\<close> and by 1
  otherwise. The code computes the factor once, from the first page (line 64): on a
  document whose first page is in inches and whose second page is in pixels, a word
  of the second page is placed at 72 times its coordinates.
\<close>

theorem scale_factor_not_per_page:
  "process_full_workflow
     [ex_page 1 (Some ''inch'') [] [],
      ex_page 2 (Some ''pixel'') [ex_line 30 ''main'' 10 10] [ex_word 15 [0, 0, 5, 0, 5, 1, 1, 1]]]
     2 21
   = Inr \<lparr>wr_text_layer = [\<lparr>ins_page = 1, ins_x = 72, ins_y = 72, ins_text = ''w''\<rparr>],
          wr_rag_json = Some [\<lparr>ch_page_number = 2, ch_type = ''page_content'',
                               ch_content = ''main''\<rparr>]\<rparr>
   \<and> pg_unit (ex_page 2 (Some ''pixel'') [ex_line 30 ''main'' 10 10]
                [ex_word 15 [0, 0, 5, 0, 5, 1, 1, 1]]) \<noteq> Some ''inch''
   \<and> get_item_poly (ex_word 15 [0, 0, 5, 0, 5, 1, 1, 1]) = Some [0, 0, 5, 0, 5, 1, 1, 1]
   \<and> [0, 0, 5, 0, 5, 1, 1, 1 :: real] ! 6 * 1 \<noteq> 72
   \<and> [0, 0, 5, 0, 5, 1, 1, 1 :: real] ! 7 * 1 \<noteq> 72"
  by (simp add: workflow_defs ex_defs)

text \<open>
  C4, amended. Every word inserted into the text layer is a word of the OCR page with
  the same index as the PDF page, its polygon has at least 8 numbers, and the insertion
  point is the polygon's coordinates at indices 6 and 7, each multiplied by 72 if the
  unit of the first OCR page of the document is \<^verbatim>\<open>inch\<close> and by 1 if that unit is
  anything else or absent.
\<close>

theorem insertion_point_scaled_by_first_page_unit:
  assumes "process_full_workflow (first_page # rest) n height_cutoff = Inr r"
    and "ins \<in> set (wr_text_layer r)"
  shows "ins_page ins < length (first_page # rest) \<and> ins_page ins < n
     \<and> (\<exists>word \<in> set (get_or_empty (pg_words ((first_page # rest) ! ins_page ins))).
          \<exists>poly. get_item_poly word = Some poly \<and> 8 \<le> length poly
            \<and> ins_x ins = poly ! 6 * (if pg_unit first_page = Some ''inch'' then 72 else 1)
            \<and> ins_y ins = poly ! 7 * (if pg_unit first_page = Some ''inch'' then 72 else 1))"
proof -
  from assms(1) obtain xs chunks where
    l: "page_loop (scale_factor_of first_page) height_cutoff n 0 (first_page # rest) = Inr (xs, chunks)"
    and r: "wr_text_layer r = xs"
    by (auto simp: process_full_workflow_def split: sum.splits prod.splits)
  from assms(2) r have "ins \<in> set xs" by simp
  from page_loop_insertions [OF l this] obtain j w poly t where
    j: "j < length (first_page # rest)" "j < n" "ins_page ins = j"
    and w: "w \<in> set (get_or_empty (pg_words ((first_page # rest) ! j)))"
      "get_item_poly w = Some poly" "8 \<le> length poly"
    and i: "ins = \<lparr>ins_page = 0 + j, ins_x = poly ! 6 * scale_factor_of first_page,
                 ins_y = poly ! 7 * scale_factor_of first_page, ins_text = t\<rparr>"
    by auto
  have "ins_x ins = poly ! 6 * scale_factor_of first_page"
    and "ins_y ins = poly ! 7 * scale_factor_of first_page"
    by (subst i, simp)+
  with j w show ?thesis
    unfolding scale_factor_of_def by blast
qed

theorem insertion_point_scaled_by_first_page_unit_witness:
  "process_full_workflow
     [ex_page 1 (Some ''inch'') [] [],
      ex_page 2 None [ex_line 30 ''main'' 10 10] [ex_word 15 [0, 0, 5, 0, 5, 2, 1, 3]]]
     2 21
   = Inr \<lparr>wr_text_layer = [\<lparr>ins_page = 1, ins_x = 72, ins_y = 216, ins_text = ''w''\<rparr>],
          wr_rag_json = Some [\<lparr>ch_page_number = 2, ch_type = ''page_content'',
                               ch_content = ''main''\<rparr>]\<rparr>
   \<and> (\<exists>poly. get_item_poly (ex_word 15 [0, 0, 5, 0, 5, 2, 1, 3]) = Some poly \<and> 8 \<le> length poly
        \<and> 72 = poly ! 6 * 72 \<and> 216 = poly ! 7 * 72)"
proof -
  have e: "process_full_workflow
     [ex_page 1 (Some ''inch'') [] [],
      ex_page 2 None [ex_line 30 ''main'' 10 10] [ex_word 15 [0, 0, 5, 0, 5, 2, 1, 3]]]
     2 21
   = Inr \<lparr>wr_text_layer = [\<lparr>ins_page = 1, ins_x = 72, ins_y = 216, ins_text = ''w''\<rparr>],
          wr_rag_json = Some [\<lparr>ch_page_number = 2, ch_type = ''page_content'',
                               ch_content = ''main''\<rparr>]\<rparr>"
    by (simp add: workflow_defs ex_defs)
  have "\<lparr>ins_page = 1, ins_x = 72, ins_y = 216, ins_text = ''w''\<rparr> \<in>
      set (wr_text_layer \<lparr>wr_text_layer = [\<lparr>ins_page = 1, ins_x = 72, ins_y = 216, ins_text = ''w''\<rparr>],
          wr_rag_json = Some [\<lparr>ch_page_number = 2, ch_type = ''page_content'',
                               ch_content = ''main''\<rparr>]\<rparr>)"
    by simp
  from insertion_point_scaled_by_first_page_unit [OF e this]
  have "\<exists>poly. get_item_poly (ex_word 15 [0, 0, 5, 0, 5, 2, 1, 3]) = Some poly \<and> 8 \<le> length poly
        \<and> 72 = poly ! 6 * 72 \<and> 216 = poly ! 7 * 72"
    by (simp add: ex_page_def get_or_empty_def)
  with e show ?thesis by blast
qed

text \<open>
  C9. The claim: for a word matched with a main-text line, with polygon and text
  present, reading the polygon at indices 6 and 7 is within bounds. The code tests
  only that the polygon is non-empty: a matched word whose polygon has 4 numbers
  makes line 89 raise IndexError, which leaves the workflow before anything is saved.
  \<^verbatim>\<open>get_polygon_height\<close> does test for fewer than 8 numbers.
\<close>

theorem short_word_polygon_raises:
  "process_full_workflow
     [ex_page 1 None [ex_line 30 ''main'' 10 10] [ex_word 15 [0, 0, 10, 30]]] 1 21
   = Inl IndexError"
  by (simp add: workflow_defs ex_defs)

section \<open>Facts about the global analysis\<close>

lemma pool_lines_eq:
  "pool_lines fps ls ms =
     (ls @ concat (map pair_lines fps), ms @ concat (map pair_warnings fps))"
  by (induction fps ls ms rule: pool_lines.induct)
    (simp_all add: pair_lines_def pair_warnings_def)

lemma np_percentile_Some: "a \<noteq> [] \<Longrightarrow> \<exists>b. np_percentile a q = Some b"
  by (simp add: np_percentile_def Let_def)

lemma np_percentile_mset:
  assumes "mset hs' = mset hs"
  shows "np_percentile hs' q = np_percentile hs q"
proof -
  from assms have "sort hs' = sort hs"
    by (intro properties_for_sort) simp_all
  moreover from assms have "hs' = [] \<longleftrightarrow> hs = []"
    by (metis mset_zero_iff)
  ultimately show ?thesis by (simp add: np_percentile_def)
qed

lemma positive_heights_Nil_iff:
  "positive_heights ls = [] \<longleftrightarrow> \<not> (\<exists>l \<in> set ls. 0 < get_polygon_height (get_item_poly l))"
  by (auto simp: positive_heights_def filter_empty_conv)

lemma global_analysis_cases:
  "global_analysis fps =
     (if concat (map pair_lines fps) = []
      then (Exit 1, concat (map pair_warnings fps) @ [NoLinesError])
      else if positive_heights (concat (map pair_lines fps)) = []
      then (Cutoff 0, concat (map pair_warnings fps) @ [NoHeightsWarning])
      else (case np_percentile (positive_heights (concat (map pair_lines fps))) 90 of
              None \<Rightarrow> (NumpyFailure, concat (map pair_warnings fps))
            | Some b \<Rightarrow> (Cutoff (b * (70 / 100)), concat (map pair_warnings fps))))"
  by (simp add: global_analysis_def pool_lines_eq Let_def)

lemma NoHeightsWarning_notin_warnings: "NoHeightsWarning \<notin> set (concat (map pair_warnings fps))"
  by (auto simp: pair_warnings_def split: load_result.splits)

lemma global_analysis_outcome:
  "(concat (map pair_lines fps) = [] \<and> fst (global_analysis fps) = Exit 1)
   \<or> (concat (map pair_lines fps) \<noteq> [] \<and> (\<exists>c. fst (global_analysis fps) = Cutoff c))"
proof (cases "concat (map pair_lines fps) = []")
  case True
  then show ?thesis by (simp add: global_analysis_cases)
next
  case False
  show ?thesis
  proof (cases "positive_heights (concat (map pair_lines fps)) = []")
    case True
    with False show ?thesis by (simp add: global_analysis_cases)
  next
    case ne: False
    then obtain b where "np_percentile (positive_heights (concat (map pair_lines fps))) 90 = Some b"
      using np_percentile_Some by blast
    with False ne have "fst (global_analysis fps) = Cutoff (b * (70 / 100))"
      by (simp add: global_analysis_cases)
    with False show ?thesis by blast
  qed
qed

lemma np_percentile_example: "np_percentile [3, 1, 2, 5, 4] 90 = Some (23 / 5)"
  by (simp add: np_percentile_def)

lemma height_ex_line: "get_polygon_height (get_item_poly (ex_line h c off len)) = max h 0 - min h 0"
  by (simp add: ex_line_def get_item_poly_def py_or_def get_polygon_height_8)

section \<open>Claims about the global analysis\<close>

text \<open>
  C1. For a batch whose pooled lines are not empty: if some pooled line has a positive
  height, the cutoff is 0.70 times the 90th percentile of the positive line heights,
  and no warning about heights is written; if none has, the warning is written and
  the cutoff is 0. The percentile depends only on the multiset of the positive
  heights, which are the heights of the pooled lines that are greater than 0.
\<close>

theorem global_cutoff_formula:
  assumes "fst (pool_lines file_pairs [] []) \<noteq> []"
  shows "((\<exists>l \<in> set (fst (pool_lines file_pairs [] [])). 0 < get_polygon_height (get_item_poly l)) \<longrightarrow>
           (\<exists>b. np_percentile (positive_heights (fst (pool_lines file_pairs [] []))) 90 = Some b
              \<and> fst (global_analysis file_pairs) = Cutoff (7 / 10 * b)
              \<and> NoHeightsWarning \<notin> set (snd (global_analysis file_pairs))))
     \<and> (\<not> (\<exists>l \<in> set (fst (pool_lines file_pairs [] [])). 0 < get_polygon_height (get_item_poly l)) \<longrightarrow>
           fst (global_analysis file_pairs) = Cutoff 0
              \<and> NoHeightsWarning \<in> set (snd (global_analysis file_pairs)))
     \<and> (\<forall>hs. mset hs = mset (positive_heights (fst (pool_lines file_pairs [] []))) \<longrightarrow>
           np_percentile hs 90 =
             np_percentile (positive_heights (fst (pool_lines file_pairs [] []))) 90)
     \<and> set (positive_heights (fst (pool_lines file_pairs [] []))) =
          {h. 0 < h \<and> (\<exists>l \<in> set (fst (pool_lines file_pairs [] [])).
                 h = get_polygon_height (get_item_poly l))}"
proof -
  let ?pool = "fst (pool_lines file_pairs [] [])"
  have pool: "?pool = concat (map pair_lines file_pairs)" by (simp add: pool_lines_eq)
  have a: "(\<exists>l \<in> set ?pool. 0 < get_polygon_height (get_item_poly l)) \<longrightarrow>
           (\<exists>b. np_percentile (positive_heights ?pool) 90 = Some b
              \<and> fst (global_analysis file_pairs) = Cutoff (7 / 10 * b)
              \<and> NoHeightsWarning \<notin> set (snd (global_analysis file_pairs)))"
  proof
    assume "\<exists>l \<in> set ?pool. 0 < get_polygon_height (get_item_poly l)"
    then have ne: "positive_heights ?pool \<noteq> []" by (simp add: positive_heights_Nil_iff)
    then obtain b where b: "np_percentile (positive_heights ?pool) 90 = Some b"
      using np_percentile_Some by blast
    with ne assms have "global_analysis file_pairs =
        (Cutoff (b * (70 / 100)), concat (map pair_warnings file_pairs))"
      by (simp add: global_analysis_cases pool Let_def)
    with b show "\<exists>b. np_percentile (positive_heights ?pool) 90 = Some b
              \<and> fst (global_analysis file_pairs) = Cutoff (7 / 10 * b)
              \<and> NoHeightsWarning \<notin> set (snd (global_analysis file_pairs))"
      using NoHeightsWarning_notin_warnings [of file_pairs] by simp
  qed
  have b: "\<not> (\<exists>l \<in> set ?pool. 0 < get_polygon_height (get_item_poly l)) \<longrightarrow>
           fst (global_analysis file_pairs) = Cutoff 0
              \<and> NoHeightsWarning \<in> set (snd (global_analysis file_pairs))"
  proof
    assume "\<not> (\<exists>l \<in> set ?pool. 0 < get_polygon_height (get_item_poly l))"
    then have "positive_heights ?pool = []" by (simp add: positive_heights_Nil_iff)
    with assms show "fst (global_analysis file_pairs) = Cutoff 0
              \<and> NoHeightsWarning \<in> set (snd (global_analysis file_pairs))"
      by (simp add: global_analysis_cases pool Let_def)
  qed
  have c: "\<forall>hs. mset hs = mset (positive_heights ?pool) \<longrightarrow>
           np_percentile hs 90 = np_percentile (positive_heights ?pool) 90"
    using np_percentile_mset by blast
  have d: "set (positive_heights ?pool) =
          {h. 0 < h \<and> (\<exists>l \<in> set ?pool. h = get_polygon_height (get_item_poly l))}"
    by (auto simp: positive_heights_def)
  from a b c d show ?thesis by blast
qed

theorem global_cutoff_formula_witness:
  "fst (pool_lines
     [(''a.json'', Loaded [ex_page 1 None [ex_line 30 ''main'' 10 10, ex_line 15 ''ruby'' 20 5] []]),
      (''b.json'', LoadFailed)] [] []) \<noteq> []
   \<and> np_percentile [30, 15] 90 = Some (57 / 2)
   \<and> np_percentile [15, 30] 90 = Some (57 / 2)
   \<and> fst (global_analysis
     [(''a.json'', Loaded [ex_page 1 None [ex_line 30 ''main'' 10 10, ex_line 15 ''ruby'' 20 5] []]),
      (''b.json'', LoadFailed)]) = Cutoff (399 / 20)
   \<and> fst (pool_lines [(''a.json'', Loaded [ex_page 1 None [ex_line 0 ''flat'' 0 4] []])] [] []) \<noteq> []
   \<and> fst (global_analysis [(''a.json'', Loaded [ex_page 1 None [ex_line 0 ''flat'' 0 4] []])])
       = Cutoff 0
   \<and> NoHeightsWarning \<in> set (snd (global_analysis
        [(''a.json'', Loaded [ex_page 1 None [ex_line 0 ''flat'' 0 4] []])]))"
proof -
  have p: "np_percentile [30, 15] 90 = Some (57 / 2)"
    by (simp add: np_percentile_def)
  have h1: "fst (pool_lines
     [(''a.json'', Loaded [ex_page 1 None [ex_line 30 ''main'' 10 10, ex_line 15 ''ruby'' 20 5] []]),
      (''b.json'', LoadFailed)] [] []) \<noteq> []"
    by (simp add: ex_page_def get_or_empty_def)
  have h2: "fst (pool_lines [(''a.json'', Loaded [ex_page 1 None [ex_line 0 ''flat'' 0 4] []])] [] []) \<noteq> []"
    by (simp add: ex_page_def get_or_empty_def)
  have a: "fst (global_analysis
     [(''a.json'', Loaded [ex_page 1 None [ex_line 30 ''main'' 10 10, ex_line 15 ''ruby'' 20 5] []]),
      (''b.json'', LoadFailed)]) = Cutoff (399 / 20)"
  proof -
    have ph: "positive_heights (fst (pool_lines
       [(''a.json'', Loaded [ex_page 1 None [ex_line 30 ''main'' 10 10, ex_line 15 ''ruby'' 20 5] []]),
        (''b.json'', LoadFailed)] [] [])) = [30, 15]"
      by (simp add: ex_page_def get_or_empty_def positive_heights_def height_ex_line)
    have "\<exists>l \<in> set (fst (pool_lines
       [(''a.json'', Loaded [ex_page 1 None [ex_line 30 ''main'' 10 10, ex_line 15 ''ruby'' 20 5] []]),
        (''b.json'', LoadFailed)] [] [])). 0 < get_polygon_height (get_item_poly l)"
      by (simp add: ex_page_def get_or_empty_def height_ex_line)
    with global_cutoff_formula [OF h1] obtain b where
      "np_percentile (positive_heights (fst (pool_lines
       [(''a.json'', Loaded [ex_page 1 None [ex_line 30 ''main'' 10 10, ex_line 15 ''ruby'' 20 5] []]),
        (''b.json'', LoadFailed)] [] []))) 90 = Some b"
      and "fst (global_analysis
       [(''a.json'', Loaded [ex_page 1 None [ex_line 30 ''main'' 10 10, ex_line 15 ''ruby'' 20 5] []]),
        (''b.json'', LoadFailed)]) = Cutoff (7 / 10 * b)"
      by blast
    with ph p show ?thesis by simp
  qed
  have m: "np_percentile [15, 30] 90 = Some (57 / 2)"
  proof -
    have ph: "positive_heights (fst (pool_lines
       [(''a.json'', Loaded [ex_page 1 None [ex_line 30 ''main'' 10 10, ex_line 15 ''ruby'' 20 5] []]),
        (''b.json'', LoadFailed)] [] [])) = [30, 15]"
      by (simp add: ex_page_def get_or_empty_def positive_heights_def height_ex_line)
    have "mset [15, 30 :: real] = mset [30, 15]" by simp
    with global_cutoff_formula [OF h1] ph p show ?thesis by metis
  qed
  have b: "fst (global_analysis [(''a.json'', Loaded [ex_page 1 None [ex_line 0 ''flat'' 0 4] []])])
       = Cutoff 0
   \<and> NoHeightsWarning \<in> set (snd (global_analysis
        [(''a.json'', Loaded [ex_page 1 None [ex_line 0 ''flat'' 0 4] []])]))"
    using global_cutoff_formula [OF h2]
    by (simp add: ex_page_def get_or_empty_def height_ex_line)
  from p m h1 h2 a b show ?thesis by blast
qed

section \<open>The analysis of a batch with a pair that failed to load\<close>

text \<open>
  The analysis ends the process (exit code 1) if and only if no line was pooled, and
  otherwise yields a cutoff. The pool is the lines of the pairs that loaded; a pair
  that failed to load adds nothing to the pool, leaves the lines of the other pairs in
  the pool, leaves the outcome of the analysis what it is without that pair, and the
  messages of the analysis hold one warning for each such pair, which names it.
\<close>

theorem calibration_fatal_iff_no_lines:
  "(fst (global_analysis file_pairs) = Exit 1 \<longleftrightarrow> fst (pool_lines file_pairs [] []) = [])
   \<and> ((\<exists>c. fst (global_analysis file_pairs) = Cutoff c) \<longleftrightarrow> fst (pool_lines file_pairs [] []) \<noteq> [])
   \<and> fst (pool_lines file_pairs [] []) = concat (map pair_lines file_pairs)
   \<and> pair_lines (name, LoadFailed) = []
   \<and> fst (pool_lines (before @ (name, LoadFailed) # after) [] []) =
       fst (pool_lines (before @ after) [] [])
   \<and> snd (pool_lines (before @ (name, LoadFailed) # after) [] []) =
       snd (pool_lines before [] []) @ ParseWarning name # snd (pool_lines after [] [])
   \<and> fst (global_analysis (before @ (name, LoadFailed) # after)) =
       fst (global_analysis (before @ after))
   \<and> snd (global_analysis file_pairs) =
       concat (map pair_warnings file_pairs) @
         (if fst (pool_lines file_pairs [] []) = [] then [NoLinesError]
          else if positive_heights (fst (pool_lines file_pairs [] [])) = []
          then [NoHeightsWarning] else [])
   \<and> pair_warnings (name, LoadFailed) = [ParseWarning name]
   \<and> ParseWarning name \<in> set (snd (global_analysis (before @ (name, LoadFailed) # after)))"
proof -
  have a: "fst (global_analysis file_pairs) = Exit 1 \<longleftrightarrow> fst (pool_lines file_pairs [] []) = []"
    using global_analysis_outcome [of file_pairs] by (auto simp: pool_lines_eq)
  have b: "(\<exists>c. fst (global_analysis file_pairs) = Cutoff c) \<longleftrightarrow>
      fst (pool_lines file_pairs [] []) \<noteq> []"
    using global_analysis_outcome [of file_pairs] by (auto simp: pool_lines_eq)
  have c: "fst (pool_lines file_pairs [] []) = concat (map pair_lines file_pairs)"
    by (simp add: pool_lines_eq)
  have d: "pair_lines (name, LoadFailed) = []" by (simp add: pair_lines_def)
  have e: "fst (pool_lines (before @ (name, LoadFailed) # after) [] []) =
       fst (pool_lines (before @ after) [] [])"
    by (simp add: pool_lines_eq d)
  have f: "snd (pool_lines (before @ (name, LoadFailed) # after) [] []) =
       snd (pool_lines before [] []) @ ParseWarning name # snd (pool_lines after [] [])"
    by (simp add: pool_lines_eq pair_warnings_def)
  have g: "fst (global_analysis (before @ (name, LoadFailed) # after)) =
       fst (global_analysis (before @ after))"
    by (simp add: global_analysis_cases d Let_def split: option.splits)
  have h: "snd (global_analysis fps) =
       concat (map pair_warnings fps) @
         (if fst (pool_lines fps [] []) = [] then [NoLinesError]
          else if positive_heights (fst (pool_lines fps [] [])) = []
          then [NoHeightsWarning] else [])" for fps
  proof (cases "positive_heights (concat (map pair_lines fps)) = []")
    case True
    then show ?thesis by (simp add: global_analysis_cases pool_lines_eq)
  next
    case False
    then obtain p where "np_percentile (positive_heights (concat (map pair_lines fps))) 90 = Some p"
      using np_percentile_Some by blast
    with False show ?thesis by (simp add: global_analysis_cases pool_lines_eq)
  qed
  have i: "pair_warnings (name, LoadFailed) = [ParseWarning name]"
    by (simp add: pair_warnings_def)
  have j: "ParseWarning name \<in> set (snd (global_analysis (before @ (name, LoadFailed) # after)))"
    by (simp add: h [of "before @ (name, LoadFailed) # after"] i)
  from a b c d e f g h [of file_pairs] i j show ?thesis by blast
qed

theorem calibration_fatal_iff_no_lines_witness:
  "fst (global_analysis [(''b.json'', LoadFailed)]) = Exit 1
   \<and> fst (global_analysis
        [(''b.json'', LoadFailed),
         (''a.json'', Loaded [ex_page 1 None [ex_line 0 ''flat'' 0 4] []])])
      = fst (global_analysis [(''a.json'', Loaded [ex_page 1 None [ex_line 0 ''flat'' 0 4] []])])
   \<and> fst (global_analysis
        [(''b.json'', LoadFailed),
         (''a.json'', Loaded [ex_page 1 None [ex_line 0 ''flat'' 0 4] []])]) \<noteq> Exit 1
   \<and> snd (pool_lines
        [(''b.json'', LoadFailed),
         (''a.json'', Loaded [ex_page 1 None [ex_line 0 ''flat'' 0 4] []])] [] [])
      = [ParseWarning ''b.json'']
   \<and> snd (global_analysis
        [(''b.json'', LoadFailed),
         (''a.json'', Loaded [ex_page 1 None [ex_line 0 ''flat'' 0 4] []])])
      = [ParseWarning ''b.json'', NoHeightsWarning]"
proof -
  have a: "fst (global_analysis [(''b.json'', LoadFailed)]) = Exit 1"
    using calibration_fatal_iff_no_lines [of "[(''b.json'', LoadFailed)]" "''b.json''" "[]" "[]"]
    by simp
  have b: "fst (global_analysis
        [(''b.json'', LoadFailed),
         (''a.json'', Loaded [ex_page 1 None [ex_line 0 ''flat'' 0 4] []])])
      = fst (global_analysis [(''a.json'', Loaded [ex_page 1 None [ex_line 0 ''flat'' 0 4] []])])
     \<and> snd (pool_lines
        [(''b.json'', LoadFailed),
         (''a.json'', Loaded [ex_page 1 None [ex_line 0 ''flat'' 0 4] []])] [] [])
      = [ParseWarning ''b.json'']"
    using calibration_fatal_iff_no_lines [of "[]" "''b.json''" "[]"
        "[(''a.json'', Loaded [ex_page 1 None [ex_line 0 ''flat'' 0 4] []])]"]
    by (simp add: ex_page_def get_or_empty_def)
  have c: "fst (global_analysis
         [(''a.json'', Loaded [ex_page 1 None [ex_line 0 ''flat'' 0 4] []])]) \<noteq> Exit 1"
    using calibration_fatal_iff_no_lines
      [of "[(''a.json'', Loaded [ex_page 1 None [ex_line 0 ''flat'' 0 4] []])]" "''b.json''" "[]" "[]"]
    by (simp add: ex_page_def get_or_empty_def)
  have d: "snd (global_analysis
        [(''b.json'', LoadFailed),
         (''a.json'', Loaded [ex_page 1 None [ex_line 0 ''flat'' 0 4] []])])
      = [ParseWarning ''b.json'', NoHeightsWarning]"
    using calibration_fatal_iff_no_lines
      [of "[(''b.json'', LoadFailed),
            (''a.json'', Loaded [ex_page 1 None [ex_line 0 ''flat'' 0 4] []])]" "''b.json''" "[]" "[]"]
    by (simp add: ex_page_def get_or_empty_def pair_warnings_def positive_heights_def
        height_ex_line)
  from a b c d show ?thesis by simp
qed

section \<open>Facts about the full mode\<close>

lemma process_pairs_LoadFailed:
  "((name, LoadFailed), n) \<in> set files \<Longrightarrow> \<exists>e. snd (process_pairs files c) = Some e"
proof (induction files c rule: process_pairs.induct)
  case (1 height_cutoff)
  then show ?case by simp
next
  case (2 name' loaded n' rest height_cutoff)
  show ?case
  proof (cases "process_pair loaded n' height_cutoff")
    case (Inl e)
    then show ?thesis by simp
  next
    case (Inr out)
    with "2.prems" have "((name, LoadFailed), n) \<in> set rest"
      by (auto simp: process_pair_def)
    with "2.IH" Inr obtain e where "snd (process_pairs rest height_cutoff) = Some e" by blast
    with Inr show ?thesis by (auto split: prod.splits)
  qed
qed

lemma process_pairs_outputs:
  "((name, LoadFailed), n) \<in> set files \<Longrightarrow>
     length (fst (process_pairs files c)) < length files"
proof (induction files c rule: process_pairs.induct)
  case (1 height_cutoff)
  then show ?case by simp
next
  case (2 name' loaded n' rest height_cutoff)
  show ?case
  proof (cases "process_pair loaded n' height_cutoff")
    case (Inl e)
    then show ?thesis by simp
  next
    case (Inr out)
    with "2.prems" have "((name, LoadFailed), n) \<in> set rest"
      by (auto simp: process_pair_def)
    with "2.IH" Inr have "length (fst (process_pairs rest height_cutoff)) < length rest" by blast
    with Inr show ?thesis by (auto split: prod.splits)
  qed
qed

lemma parse_failure_never_completes:
  assumes "((name, LoadFailed), n) \<in> set files"
  shows "snd (snd (main_full_mode files)) \<noteq> Completed"
proof -
  obtain outcome msgs where g: "global_analysis (map fst files) = (outcome, msgs)"
    by (cases "global_analysis (map fst files)")
  show ?thesis
  proof (cases outcome)
    case (Exit k)
    with g show ?thesis by (simp add: main_full_mode_def)
  next
    case NumpyFailure
    with g show ?thesis by (simp add: main_full_mode_def)
  next
    case (Cutoff c)
    from process_pairs_LoadFailed [OF assms, of c] obtain e where
      "snd (process_pairs files c) = Some e" by blast
    then obtain outs where "process_pairs files c = (outs, Some e)"
      by (cases "process_pairs files c") simp
    with g Cutoff show ?thesis by (simp add: main_full_mode_def)
  qed
qed

section \<open>Claims about the full mode\<close>

text \<open>
  C8. The claim: the analysis ends the process if and only if no line was pooled, and
  a JSON file that cannot be parsed gives a warning, is left out of the pool, and does
  not by itself abort the batch. The analysis does this (see above), and its warning
  says the file is skipped. But the loop of lines 183 to 187 then runs the workflow for
  every pair, the workflow loads the same JSON file again at line 58 with no
  \<^verbatim>\<open>except\<close>, and the loop has no \<^verbatim>\<open>try\<close>: in a batch of three pairs whose second JSON
  file cannot be parsed, the first pair is processed, the exception of the second ends
  the run, and the third pair is never processed. Without the second pair both others
  are processed.
\<close>

theorem parse_failure_aborts_batch:
  "main_full_mode
     [((''a.json'', Loaded [ex_page 1 None [ex_line 30 ''main'' 10 10]
                              [ex_word 15 [0, 0, 5, 0, 5, 1, 1, 1]]]), 1),
      ((''b.json'', LoadFailed), 1),
      ((''c.json'', Loaded [ex_page 1 None [ex_line 30 ''main'' 10 10]
                              [ex_word 15 [0, 0, 5, 0, 5, 1, 1, 1]]]), 1)]
   = ([ParseWarning ''b.json''],
      [(''a.json'',
        \<lparr>wr_text_layer = [\<lparr>ins_page = 0, ins_x = 1, ins_y = 1, ins_text = ''w''\<rparr>],
         wr_rag_json = Some [\<lparr>ch_page_number = 1, ch_type = ''page_content'',
                              ch_content = ''main''\<rparr>]\<rparr>)],
      Uncaught JSONDecodeError)
   \<and> main_full_mode
     [((''a.json'', Loaded [ex_page 1 None [ex_line 30 ''main'' 10 10]
                              [ex_word 15 [0, 0, 5, 0, 5, 1, 1, 1]]]), 1),
      ((''c.json'', Loaded [ex_page 1 None [ex_line 30 ''main'' 10 10]
                              [ex_word 15 [0, 0, 5, 0, 5, 1, 1, 1]]]), 1)]
   = ([],
      [(''a.json'',
        \<lparr>wr_text_layer = [\<lparr>ins_page = 0, ins_x = 1, ins_y = 1, ins_text = ''w''\<rparr>],
         wr_rag_json = Some [\<lparr>ch_page_number = 1, ch_type = ''page_content'',
                              ch_content = ''main''\<rparr>]\<rparr>),
       (''c.json'',
        \<lparr>wr_text_layer = [\<lparr>ins_page = 0, ins_x = 1, ins_y = 1, ins_text = ''w''\<rparr>],
         wr_rag_json = Some [\<lparr>ch_page_number = 1, ch_type = ''page_content'',
                              ch_content = ''main''\<rparr>]\<rparr>)],
      Completed)"
proof -
  have p: "np_percentile [30, 30] 90 = Some 30"
    by (simp add: np_percentile_def)
  have w: "process_full_workflow
      [ex_page 1 None [ex_line 30 ''main'' 10 10] [ex_word 15 [0, 0, 5, 0, 5, 1, 1, 1]]] (Suc 0) 21
    = Inr \<lparr>wr_text_layer = [\<lparr>ins_page = 0, ins_x = 1, ins_y = 1, ins_text = ''w''\<rparr>],
         wr_rag_json = Some [\<lparr>ch_page_number = 1, ch_type = ''page_content'',
                              ch_content = ''main''\<rparr>]\<rparr>"
    by (simp add: workflow_defs ex_defs)
  have g1: "global_analysis
     [(''a.json'', Loaded [ex_page 1 None [ex_line 30 ''main'' 10 10]
                              [ex_word 15 [0, 0, 5, 0, 5, 1, 1, 1]]]),
      (''b.json'', LoadFailed),
      (''c.json'', Loaded [ex_page 1 None [ex_line 30 ''main'' 10 10]
                              [ex_word 15 [0, 0, 5, 0, 5, 1, 1, 1]]])]
    = (Cutoff 21, [ParseWarning ''b.json''])"
    by (simp add: global_analysis_def positive_heights_def height_ex_line p ex_page_def
        get_or_empty_def)
  have g2: "global_analysis
     [(''a.json'', Loaded [ex_page 1 None [ex_line 30 ''main'' 10 10]
                              [ex_word 15 [0, 0, 5, 0, 5, 1, 1, 1]]]),
      (''c.json'', Loaded [ex_page 1 None [ex_line 30 ''main'' 10 10]
                              [ex_word 15 [0, 0, 5, 0, 5, 1, 1, 1]]])]
    = (Cutoff 21, [])"
    by (simp add: global_analysis_def positive_heights_def height_ex_line p ex_page_def
        get_or_empty_def)
  show ?thesis
    by (simp add: main_full_mode_def g1 g2 process_pair_def w)
qed

section \<open>Facts about rebuilding in place\<close>

lemma rfind_dot_split:
  assumes "CHR ''.'' \<in> set name"
  shows "\<exists>pre post. name = pre @ CHR ''.'' # post \<and> CHR ''.'' \<notin> set post
           \<and> rfind_dot name = Some (length pre)"
proof -
  define t where "t = takeWhile (\<lambda>c. c \<noteq> CHR ''.'') (rev name)"
  define d where "d = dropWhile (\<lambda>c. c \<noteq> CHR ''.'') (rev name)"
  have td: "rev name = t @ d" by (simp add: t_def d_def)
  from assms have ne: "d \<noteq> []" by (simp add: d_def dropWhile_eq_Nil_conv)
  then have "\<not> (hd d \<noteq> CHR ''.'')"
    unfolding d_def by (rule hd_dropWhile)
  with ne obtain r where d: "d = CHR ''.'' # r" by (cases d) simp_all
  from td d have "rev (rev name) = rev (t @ CHR ''.'' # r)" by simp
  then have n: "name = rev r @ CHR ''.'' # rev t" by simp
  have nt: "CHR ''.'' \<notin> set (rev t)"
    using set_takeWhileD [of "CHR ''.''" "\<lambda>c. c \<noteq> CHR ''.''" "rev name"] by (auto simp: t_def)
  from n have "length name = length r + 1 + length t" by simp
  then have "length name - 1 - length t = length (rev r)" by simp
  with assms have "rfind_dot name = Some (length (rev r))"
    by (simp add: rfind_dot_def t_def)
  with n nt show ?thesis by blast
qed


lemma suffix_of_cases:
  "suffix_of name = [] \<or>
   (\<exists>pre post. name = pre @ CHR ''.'' # post \<and> suffix_of name = CHR ''.'' # post
      \<and> CHR ''.'' \<notin> set post)"
proof (cases "CHR ''.'' \<in> set name")
  case False
  then show ?thesis by (simp add: suffix_of_def rfind_dot_def)
next
  case True
  from rfind_dot_split [OF this] obtain pre post where
    p: "name = pre @ CHR ''.'' # post" "CHR ''.'' \<notin> set post"
      "rfind_dot name = Some (length pre)"
    by blast
  have "drop (length pre) (pre @ CHR ''.'' # post) = CHR ''.'' # post" by simp
  with p(1) have "drop (length pre) name = CHR ''.'' # post" by simp
  with p show ?thesis unfolding suffix_of_def by (cases "0 < length pre \<and> length pre < length name - 1") auto
qed

lemma with_suffix_cases:
  "with_suffix p sfx = (fst p, snd p @ sfx) \<or>
   (\<exists>pre post. snd p = pre @ CHR ''.'' # post \<and> CHR ''.'' \<notin> set post
      \<and> with_suffix p sfx = (fst p, pre @ sfx))"
proof -
  from suffix_of_cases [of "snd p"] consider "suffix_of (snd p) = []"
    | pre post where "snd p = pre @ CHR ''.'' # post" "suffix_of (snd p) = CHR ''.'' # post"
        "CHR ''.'' \<notin> set post"
    by blast
  then show ?thesis
  proof cases
    case 1
    then show ?thesis by (simp add: with_suffix_def)
  next
    case 2
    have "take (length (pre @ CHR ''.'' # post) - length (CHR ''.'' # post)) (pre @ CHR ''.'' # post) = pre"
      by simp
    with 2(1,2) have "take (length (snd p) - length (suffix_of (snd p))) (snd p) = pre"
      by simp
    then have "with_suffix p sfx = (fst p, pre @ sfx)" by (simp add: with_suffix_def)
    with 2 show ?thesis by blast
  qed
qed

lemma with_suffix_tmp_neq: "with_suffix p ''.tmp.pdf'' \<noteq> p"
proof
  assume eq: "with_suffix p ''.tmp.pdf'' = p"
  from with_suffix_cases [of p "''.tmp.pdf''"] consider
    "with_suffix p ''.tmp.pdf'' = (fst p, snd p @ ''.tmp.pdf'')"
    | pre post where "snd p = pre @ CHR ''.'' # post" "CHR ''.'' \<notin> set post"
        "with_suffix p ''.tmp.pdf'' = (fst p, pre @ ''.tmp.pdf'')"
    by blast
  then show False
  proof cases
    case 1
    with eq have "snd p @ ''.tmp.pdf'' = snd p" by (metis snd_conv)
    then show False by simp
  next
    case 2
    with eq have "pre @ ''.tmp.pdf'' = snd p" by (metis snd_conv)
    with 2(1) have "pre @ ''.tmp.pdf'' = pre @ CHR ''.'' # post" by simp
    then have "post = ''tmp.pdf''" by simp
    with 2(2) show False by simp
  qed
qed


lemma with_suffix_tmp_neq': "p \<noteq> with_suffix p ''.tmp.pdf''"
  using with_suffix_tmp_neq [of p] by (rule not_sym)

lemma remove_if_exists_same: "remove_if_exists f t t = None"
  by (simp add: remove_if_exists_def)

lemma remove_if_exists_other: "t \<noteq> q \<Longrightarrow> remove_if_exists f t q = f q"
  by (simp add: remove_if_exists_def)

lemma rebuild_pages_None_iff: "rebuild_pages ps = None \<longleftrightarrow> PageError \<in> set ps"
  by (induction ps rule: rebuild_pages.induct) (auto split: option.splits)

lemma build_new_doc_None_iff:
  "build_new_doc env = None \<longleftrightarrow>
     env_open env = None \<or> (\<exists>ps. env_open env = Some ps \<and> PageError \<in> set ps)"
  by (auto simp: build_new_doc_def rebuild_pages_None_iff split: option.splits)

lemma rebuild_and_replace_error:
  assumes "build_new_doc env = None \<or> (\<exists>partial. env_save env = SaveError partial)"
  shows "rebuild_and_replace env f p (with_suffix p ''.tmp.pdf'') = None
     \<and> rebuild_and_replace env f p p = f p"
proof (cases "build_new_doc env")
  case None
  then show ?thesis
    by (simp add: rebuild_and_replace_def Let_def remove_if_exists_same remove_if_exists_other
        with_suffix_tmp_neq with_suffix_tmp_neq')
next
  case (Some new_doc)
  with assms obtain partial where "env_save env = SaveError partial" by auto
  with Some show ?thesis
    by (cases partial)
      (simp_all add: rebuild_and_replace_def Let_def remove_if_exists_same remove_if_exists_other
        with_suffix_tmp_neq with_suffix_tmp_neq')
qed

lemma rebuild_and_replace_changed:
  assumes "rebuild_and_replace env f p p \<noteq> f p"
  shows "\<exists>new_doc. build_new_doc env = Some new_doc \<and> env_save env = Saved \<and> env_move_ok env
           \<and> rebuild_and_replace env f p p = Some (Rebuilt new_doc)"
proof (cases "build_new_doc env")
  case None
  with assms rebuild_and_replace_error [of env f p] show ?thesis by simp
next
  case (Some new_doc)
  show ?thesis
  proof (cases "env_save env")
    case (SaveError partial)
    with assms rebuild_and_replace_error [of env f p] show ?thesis by auto
  next
    case Saved
    show ?thesis
    proof (cases "env_move_ok env")
      case True
      with Some Saved have "rebuild_and_replace env f p p = Some (Rebuilt new_doc)"
        using with_suffix_tmp_neq [of p] with_suffix_tmp_neq' [of p]
        by (simp add: rebuild_and_replace_def Let_def)
      with Some Saved True show ?thesis by simp
    next
      case False
      with Some Saved have "rebuild_and_replace env f p p = f p"
        using with_suffix_tmp_neq [of p] with_suffix_tmp_neq' [of p]
        by (simp add: rebuild_and_replace_def Let_def remove_if_exists_other)
      with assms show ?thesis by simp
    qed
  qed
qed

lemma rebuild_from_images_cases:
  "snd (rebuild_from_images env fs pdf_path create_backup) = fs \<or>
   (\<exists>f. f pdf_path = fs pdf_path \<and> fs pdf_path \<noteq> None \<and> (create_backup \<longrightarrow> env_copy_ok env)
      \<and> snd (rebuild_from_images env fs pdf_path create_backup) = rebuild_and_replace env f pdf_path)"
proof (cases "fs pdf_path")
  case None
  then show ?thesis by (simp add: rebuild_from_images_def)
next
  case (Some original)
  show ?thesis
  proof (cases create_backup)
    case False
    with Some show ?thesis by (auto simp: rebuild_from_images_def)
  next
    case True
    show ?thesis
    proof (cases "env_copy_ok env")
      case False
      with True Some show ?thesis by (simp add: rebuild_from_images_def)
    next
      case ok: True
      have "(fs(with_suffix pdf_path ''.bak.pdf'' \<mapsto> original)) pdf_path = fs pdf_path"
        using Some by simp
      moreover have "snd (rebuild_from_images env fs pdf_path create_backup) =
          rebuild_and_replace env (fs(with_suffix pdf_path ''.bak.pdf'' \<mapsto> original)) pdf_path"
        using True ok Some by (simp add: rebuild_from_images_def)
      ultimately show ?thesis using Some True ok by blast
    qed
  qed
qed

lemma rebuild_from_images_reaches_try:
  assumes "fs pdf_path \<noteq> None" and "create_backup \<longrightarrow> env_copy_ok env"
  shows "\<exists>f. f pdf_path = fs pdf_path
      \<and> snd (rebuild_from_images env fs pdf_path create_backup) = rebuild_and_replace env f pdf_path"
proof -
  from assms(1) obtain original where o: "fs pdf_path = Some original" by auto
  show ?thesis
  proof (cases create_backup)
    case False
    with o show ?thesis by (auto simp: rebuild_from_images_def)
  next
    case True
    with assms(2) have ok: "env_copy_ok env" by simp
    have "(fs(with_suffix pdf_path ''.bak.pdf'' \<mapsto> original)) pdf_path = fs pdf_path"
      using o by simp
    moreover have "snd (rebuild_from_images env fs pdf_path create_backup) =
        rebuild_and_replace env (fs(with_suffix pdf_path ''.bak.pdf'' \<mapsto> original)) pdf_path"
      using True ok o by (simp add: rebuild_from_images_def)
    ultimately show ?thesis by blast
  qed
qed

lemma rebuild_page_kept:
  "rebuild_page img_list =
     concat (map (\<lambda>im. case im of ImageOk b \<Rightarrow> [b] | ImageError \<Rightarrow> []) img_list)"
  by (induction img_list rule: rebuild_page.induct) simp_all

lemma rebuild_pages_kept:
  "PageError \<notin> set ps \<Longrightarrow>
     rebuild_pages ps =
       Some (map (\<lambda>pg. case pg of
                          PageError \<Rightarrow> []
                        | PageImages img_list \<Rightarrow>
                            concat (map (\<lambda>im. case im of ImageOk b \<Rightarrow> [b] | ImageError \<Rightarrow> [])
                              img_list)) ps)"
  by (induction ps rule: rebuild_pages.induct) (simp_all add: rebuild_page_kept)

lemma rebuild_and_replace_success:
  assumes "build_new_doc env = Some new_doc" and "env_save env = Saved" and "env_move_ok env"
  shows "rebuild_and_replace env f p p = Some (Rebuilt new_doc)
     \<and> rebuild_and_replace env f p (with_suffix p ''.tmp.pdf'') = None"
  using assms with_suffix_tmp_neq [of p] with_suffix_tmp_neq' [of p]
  by (simp add: rebuild_and_replace_def Let_def)

lemma with_suffix_example:
  "with_suffix (''d'', ''scan.pdf'') ''.tmp.pdf'' = (''d'', ''scan.tmp.pdf'')
   \<and> with_suffix (''d'', ''scan.v2.pdf'') ''.bak.pdf'' = (''d'', ''scan.v2.bak.pdf'')
   \<and> with_suffix (''d'', ''.hidden'') ''.tmp.pdf'' = (''d'', ''.hidden.tmp.pdf'')"
  by (simp add: with_suffix_def suffix_of_def rfind_dot_def)

section \<open>Claims about rebuilding in place\<close>

text \<open>
  C10. The claim: the original PDF is replaced only after the rebuilt document has been
  saved to the temporary path, and if any error occurs during rebuilding or saving,
  the temporary file is removed and the original is left unchanged. An error while
  extracting or inserting one image is caught inside the page loop (line 63): the
  image is skipped, the rebuild goes on, and the original is replaced by a document
  without that image.
\<close>

theorem image_error_still_replaces:
  "snd (rebuild_from_images
      \<lparr>env_copy_ok = True, env_open = Some [PageImages [ImageOk ''jpeg1'', ImageError]],
       env_save = Saved, env_move_ok = True\<rparr>
      [(''d'', ''scan.pdf'') \<mapsto> Bytes ''old''] (''d'', ''scan.pdf'') False) (''d'', ''scan.pdf'')
     = Some (Rebuilt [[''jpeg1'']])
   \<and> [(''d'', ''scan.pdf'') \<mapsto> Bytes ''old''] (''d'', ''scan.pdf'') = Some (Bytes ''old'')
   \<and> ImageError \<in> set [ImageOk ''jpeg1'', ImageError]"
  by (simp add: rebuild_from_images_def rebuild_and_replace_def build_new_doc_def Let_def
      with_suffix_example)

text \<open>
  C10, amended. The content at the original path changes only if the original was
  opened, every page was rebuilt, the document was saved to the temporary path and the
  move succeeded; it is then the rebuilt document. If opening the original raises, or
  creating a page or listing its images raises, or saving raises, then no file is left
  at the temporary path and the content at the original path is unchanged. An error
  on a single image stops neither the rebuild nor the replacement: when the original
  opens, no page raises, and the save and the move succeed, the original is replaced
  by the document that holds, page by page, the images that were extracted, those
  that raised left out, and no file is left at the temporary path.
\<close>

theorem original_replaced_only_after_save:
  "(snd (rebuild_from_images env fs pdf_path create_backup) pdf_path \<noteq> fs pdf_path \<longrightarrow>
      (\<exists>original_pages new_doc.
         env_open env = Some original_pages \<and> rebuild_pages original_pages = Some new_doc
         \<and> env_save env = Saved \<and> env_move_ok env
         \<and> snd (rebuild_from_images env fs pdf_path create_backup) pdf_path
             = Some (Rebuilt new_doc)))
   \<and> (fs pdf_path \<noteq> None \<and> (create_backup \<longrightarrow> env_copy_ok env)
        \<and> (env_open env = None
             \<or> (\<exists>original_pages. env_open env = Some original_pages
                    \<and> PageError \<in> set original_pages)
             \<or> (\<exists>partial. env_save env = SaveError partial)) \<longrightarrow>
      snd (rebuild_from_images env fs pdf_path create_backup)
          (with_suffix pdf_path ''.tmp.pdf'') = None
      \<and> snd (rebuild_from_images env fs pdf_path create_backup) pdf_path = fs pdf_path)
   \<and> (fs pdf_path \<noteq> None \<and> (create_backup \<longrightarrow> env_copy_ok env)
        \<and> env_open env = Some pages_of_original \<and> PageError \<notin> set pages_of_original
        \<and> env_save env = Saved \<and> env_move_ok env \<longrightarrow>
      snd (rebuild_from_images env fs pdf_path create_backup) pdf_path =
        Some (Rebuilt
          (map (\<lambda>pg. case pg of
                        PageError \<Rightarrow> []
                      | PageImages img_list \<Rightarrow>
                          concat (map (\<lambda>im. case im of ImageOk b \<Rightarrow> [b] | ImageError \<Rightarrow> [])
                            img_list))
             pages_of_original))
      \<and> snd (rebuild_from_images env fs pdf_path create_backup)
          (with_suffix pdf_path ''.tmp.pdf'') = None)"
proof -
  have a: "snd (rebuild_from_images env fs pdf_path create_backup) pdf_path \<noteq> fs pdf_path \<longrightarrow>
      (\<exists>original_pages new_doc.
         env_open env = Some original_pages \<and> rebuild_pages original_pages = Some new_doc
         \<and> env_save env = Saved \<and> env_move_ok env
         \<and> snd (rebuild_from_images env fs pdf_path create_backup) pdf_path
             = Some (Rebuilt new_doc))"
  proof
    assume ch: "snd (rebuild_from_images env fs pdf_path create_backup) pdf_path \<noteq> fs pdf_path"
    with rebuild_from_images_cases [of env fs pdf_path create_backup] obtain f where
      f: "f pdf_path = fs pdf_path"
        "snd (rebuild_from_images env fs pdf_path create_backup) = rebuild_and_replace env f pdf_path"
      by auto
    with ch have "rebuild_and_replace env f pdf_path pdf_path \<noteq> f pdf_path" by simp
    from rebuild_and_replace_changed [OF this] obtain new_doc where
      n: "build_new_doc env = Some new_doc" "env_save env = Saved" "env_move_ok env"
        "rebuild_and_replace env f pdf_path pdf_path = Some (Rebuilt new_doc)"
      by blast
    from n(1) obtain original_pages where
      "env_open env = Some original_pages" "rebuild_pages original_pages = Some new_doc"
      by (auto simp: build_new_doc_def split: option.splits)
    with n f(2) show "\<exists>original_pages new_doc.
         env_open env = Some original_pages \<and> rebuild_pages original_pages = Some new_doc
         \<and> env_save env = Saved \<and> env_move_ok env
         \<and> snd (rebuild_from_images env fs pdf_path create_backup) pdf_path
             = Some (Rebuilt new_doc)"
      by simp
  qed
  have b: "fs pdf_path \<noteq> None \<and> (create_backup \<longrightarrow> env_copy_ok env)
        \<and> (env_open env = None
             \<or> (\<exists>original_pages. env_open env = Some original_pages
                    \<and> PageError \<in> set original_pages)
             \<or> (\<exists>partial. env_save env = SaveError partial)) \<longrightarrow>
      snd (rebuild_from_images env fs pdf_path create_backup)
          (with_suffix pdf_path ''.tmp.pdf'') = None
      \<and> snd (rebuild_from_images env fs pdf_path create_backup) pdf_path = fs pdf_path"
  proof
    assume h: "fs pdf_path \<noteq> None \<and> (create_backup \<longrightarrow> env_copy_ok env)
        \<and> (env_open env = None
             \<or> (\<exists>original_pages. env_open env = Some original_pages
                    \<and> PageError \<in> set original_pages)
             \<or> (\<exists>partial. env_save env = SaveError partial))"
    then have e: "build_new_doc env = None \<or> (\<exists>partial. env_save env = SaveError partial)"
      by (auto simp: build_new_doc_None_iff)
    from h rebuild_from_images_reaches_try [of fs pdf_path create_backup env] obtain f where
      f: "f pdf_path = fs pdf_path"
        "snd (rebuild_from_images env fs pdf_path create_backup) = rebuild_and_replace env f pdf_path"
      by blast
    from rebuild_and_replace_error [OF e, of f pdf_path] f
    show "snd (rebuild_from_images env fs pdf_path create_backup)
          (with_suffix pdf_path ''.tmp.pdf'') = None
      \<and> snd (rebuild_from_images env fs pdf_path create_backup) pdf_path = fs pdf_path"
      by simp
  qed
  have c: "fs pdf_path \<noteq> None \<and> (create_backup \<longrightarrow> env_copy_ok env)
        \<and> env_open env = Some pages_of_original \<and> PageError \<notin> set pages_of_original
        \<and> env_save env = Saved \<and> env_move_ok env \<longrightarrow>
      snd (rebuild_from_images env fs pdf_path create_backup) pdf_path =
        Some (Rebuilt
          (map (\<lambda>pg. case pg of
                        PageError \<Rightarrow> []
                      | PageImages img_list \<Rightarrow>
                          concat (map (\<lambda>im. case im of ImageOk b \<Rightarrow> [b] | ImageError \<Rightarrow> [])
                            img_list))
             pages_of_original))
      \<and> snd (rebuild_from_images env fs pdf_path create_backup)
          (with_suffix pdf_path ''.tmp.pdf'') = None"
  proof
    assume h: "fs pdf_path \<noteq> None \<and> (create_backup \<longrightarrow> env_copy_ok env)
        \<and> env_open env = Some pages_of_original \<and> PageError \<notin> set pages_of_original
        \<and> env_save env = Saved \<and> env_move_ok env"
    then have b: "build_new_doc env =
        Some (map (\<lambda>pg. case pg of
                        PageError \<Rightarrow> []
                      | PageImages img_list \<Rightarrow>
                          concat (map (\<lambda>im. case im of ImageOk b \<Rightarrow> [b] | ImageError \<Rightarrow> [])
                            img_list))
             pages_of_original)"
      by (simp add: build_new_doc_def rebuild_pages_kept)
    from h rebuild_from_images_reaches_try [of fs pdf_path create_backup env] obtain f where
      f: "snd (rebuild_from_images env fs pdf_path create_backup) = rebuild_and_replace env f pdf_path"
      by blast
    from h have "env_save env = Saved" "env_move_ok env" by simp_all
    from rebuild_and_replace_success [OF b this, of f pdf_path] f
    show "snd (rebuild_from_images env fs pdf_path create_backup) pdf_path =
        Some (Rebuilt
          (map (\<lambda>pg. case pg of
                        PageError \<Rightarrow> []
                      | PageImages img_list \<Rightarrow>
                          concat (map (\<lambda>im. case im of ImageOk b \<Rightarrow> [b] | ImageError \<Rightarrow> [])
                            img_list))
             pages_of_original))
      \<and> snd (rebuild_from_images env fs pdf_path create_backup)
          (with_suffix pdf_path ''.tmp.pdf'') = None"
      by simp
  qed
  from a b c show ?thesis by blast
qed

theorem original_replaced_only_after_save_witness:
  "snd (rebuild_from_images
      \<lparr>env_copy_ok = True, env_open = Some [PageImages [ImageOk ''jpeg1'']],
       env_save = SaveError (Some PartialFile), env_move_ok = True\<rparr>
      [(''d'', ''scan.pdf'') \<mapsto> Bytes ''old''] (''d'', ''scan.pdf'') True) (''d'', ''scan.tmp.pdf'') = None
   \<and> snd (rebuild_from_images
      \<lparr>env_copy_ok = True, env_open = Some [PageImages [ImageOk ''jpeg1'']],
       env_save = SaveError (Some PartialFile), env_move_ok = True\<rparr>
      [(''d'', ''scan.pdf'') \<mapsto> Bytes ''old''] (''d'', ''scan.pdf'') True) (''d'', ''scan.pdf'')
     = Some (Bytes ''old'')
   \<and> snd (rebuild_from_images
      \<lparr>env_copy_ok = True, env_open = Some [PageImages [ImageOk ''jpeg1'']],
       env_save = Saved, env_move_ok = True\<rparr>
      [(''d'', ''scan.pdf'') \<mapsto> Bytes ''old''] (''d'', ''scan.pdf'') False) (''d'', ''scan.pdf'')
     = Some (Rebuilt [[''jpeg1'']])
   \<and> snd (rebuild_from_images
      \<lparr>env_copy_ok = True,
       env_open = Some [PageImages [ImageError, ImageOk ''jpeg2''], PageImages [ImageError]],
       env_save = Saved, env_move_ok = True\<rparr>
      [(''d'', ''scan.pdf'') \<mapsto> Bytes ''old''] (''d'', ''scan.pdf'') True) (''d'', ''scan.pdf'')
     = Some (Rebuilt [[''jpeg2''], []])"
proof -
  have t: "with_suffix (''d'', ''scan.pdf'') ''.tmp.pdf'' = (''d'', ''scan.tmp.pdf'')"
    by (simp add: with_suffix_example)
  note A = original_replaced_only_after_save
      [of "\<lparr>env_copy_ok = True, env_open = Some [PageImages [ImageOk ''jpeg1'']],
           env_save = SaveError (Some PartialFile), env_move_ok = True\<rparr>"
          "[(''d'', ''scan.pdf'') \<mapsto> Bytes ''old'']" "(''d'', ''scan.pdf'')" True
          "[PageImages [ImageOk ''jpeg1'']]",
       THEN conjunct2, THEN conjunct1, THEN mp]
  have "snd (rebuild_from_images
      \<lparr>env_copy_ok = True, env_open = Some [PageImages [ImageOk ''jpeg1'']],
       env_save = SaveError (Some PartialFile), env_move_ok = True\<rparr>
      [(''d'', ''scan.pdf'') \<mapsto> Bytes ''old''] (''d'', ''scan.pdf'') True)
        (with_suffix (''d'', ''scan.pdf'') ''.tmp.pdf'') = None
   \<and> snd (rebuild_from_images
      \<lparr>env_copy_ok = True, env_open = Some [PageImages [ImageOk ''jpeg1'']],
       env_save = SaveError (Some PartialFile), env_move_ok = True\<rparr>
      [(''d'', ''scan.pdf'') \<mapsto> Bytes ''old''] (''d'', ''scan.pdf'') True) (''d'', ''scan.pdf'')
     = [(''d'', ''scan.pdf'') \<mapsto> Bytes ''old''] (''d'', ''scan.pdf'')"
    by (rule A) simp
  then have a: "snd (rebuild_from_images
      \<lparr>env_copy_ok = True, env_open = Some [PageImages [ImageOk ''jpeg1'']],
       env_save = SaveError (Some PartialFile), env_move_ok = True\<rparr>
      [(''d'', ''scan.pdf'') \<mapsto> Bytes ''old''] (''d'', ''scan.pdf'') True) (''d'', ''scan.tmp.pdf'') = None
   \<and> snd (rebuild_from_images
      \<lparr>env_copy_ok = True, env_open = Some [PageImages [ImageOk ''jpeg1'']],
       env_save = SaveError (Some PartialFile), env_move_ok = True\<rparr>
      [(''d'', ''scan.pdf'') \<mapsto> Bytes ''old''] (''d'', ''scan.pdf'') True) (''d'', ''scan.pdf'')
     = Some (Bytes ''old'')"
    by (simp add: t)
  note B = original_replaced_only_after_save
      [of "\<lparr>env_copy_ok = True, env_open = Some [PageImages [ImageOk ''jpeg1'']],
           env_save = Saved, env_move_ok = True\<rparr>"
          "[(''d'', ''scan.pdf'') \<mapsto> Bytes ''old'']" "(''d'', ''scan.pdf'')" False
          "[PageImages [ImageOk ''jpeg1'']]",
       THEN conjunct1, THEN mp]
  have ne: "snd (rebuild_from_images
      \<lparr>env_copy_ok = True, env_open = Some [PageImages [ImageOk ''jpeg1'']],
       env_save = Saved, env_move_ok = True\<rparr>
      [(''d'', ''scan.pdf'') \<mapsto> Bytes ''old''] (''d'', ''scan.pdf'') False) (''d'', ''scan.pdf'')
      \<noteq> [(''d'', ''scan.pdf'') \<mapsto> Bytes ''old''] (''d'', ''scan.pdf'')"
    by (simp add: rebuild_from_images_def rebuild_and_replace_def build_new_doc_def Let_def t)
  from B [OF ne] obtain original_pages new_doc where
    "Some [PageImages [ImageOk ''jpeg1'']] = Some original_pages"
    "rebuild_pages original_pages = Some new_doc"
    "snd (rebuild_from_images
      \<lparr>env_copy_ok = True, env_open = Some [PageImages [ImageOk ''jpeg1'']],
       env_save = Saved, env_move_ok = True\<rparr>
      [(''d'', ''scan.pdf'') \<mapsto> Bytes ''old''] (''d'', ''scan.pdf'') False) (''d'', ''scan.pdf'')
     = Some (Rebuilt new_doc)"
    by auto
  then have b: "snd (rebuild_from_images
      \<lparr>env_copy_ok = True, env_open = Some [PageImages [ImageOk ''jpeg1'']],
       env_save = Saved, env_move_ok = True\<rparr>
      [(''d'', ''scan.pdf'') \<mapsto> Bytes ''old''] (''d'', ''scan.pdf'') False) (''d'', ''scan.pdf'')
     = Some (Rebuilt [[''jpeg1'']])"
    by auto
  note C = original_replaced_only_after_save
      [of "\<lparr>env_copy_ok = True,
           env_open = Some [PageImages [ImageError, ImageOk ''jpeg2''], PageImages [ImageError]],
           env_save = Saved, env_move_ok = True\<rparr>"
          "[(''d'', ''scan.pdf'') \<mapsto> Bytes ''old'']" "(''d'', ''scan.pdf'')" True
          "[PageImages [ImageError, ImageOk ''jpeg2''], PageImages [ImageError]]",
       THEN conjunct2, THEN conjunct2, THEN mp, THEN conjunct1]
  have "snd (rebuild_from_images
      \<lparr>env_copy_ok = True,
       env_open = Some [PageImages [ImageError, ImageOk ''jpeg2''], PageImages [ImageError]],
       env_save = Saved, env_move_ok = True\<rparr>
      [(''d'', ''scan.pdf'') \<mapsto> Bytes ''old''] (''d'', ''scan.pdf'') True) (''d'', ''scan.pdf'')
     = Some (Rebuilt
          (map (\<lambda>pg. case pg of
                        PageError \<Rightarrow> []
                      | PageImages img_list \<Rightarrow>
                          concat (map (\<lambda>im. case im of ImageOk b \<Rightarrow> [b] | ImageError \<Rightarrow> [])
                            img_list))
             [PageImages [ImageError, ImageOk ''jpeg2''], PageImages [ImageError]]))"
    by (rule C) simp
  then have c: "snd (rebuild_from_images
      \<lparr>env_copy_ok = True,
       env_open = Some [PageImages [ImageError, ImageOk ''jpeg2''], PageImages [ImageError]],
       env_save = Saved, env_move_ok = True\<rparr>
      [(''d'', ''scan.pdf'') \<mapsto> Bytes ''old''] (''d'', ''scan.pdf'') True) (''d'', ''scan.pdf'')
     = Some (Rebuilt [[''jpeg2''], []])"
    by simp
  from a b c show ?thesis by blast
qed

end
